theory Spec2Isabelle
  imports Main
begin

section \<open>JavaScript values and strings\<close>

text \<open>
  The backend is \<^verbatim>\<open>backend/server.js\<close>. A \<^typ>\<open>string\<close> of the model is a JavaScript
  string all of whose code units are below U+0100, each \<^typ>\<open>char\<close> being the code point
  of that number (ASCII and the Latin-1 supplement). On these strings \<open>toLowerCase\<close>,
  \<open>trim\<close> and SQL's \<open>LOWER\<close> are as JavaScript and MySQL have them; strings with code
  points from U+0100 on are not values of the type.

  A value found in a result row of the \<^verbatim>\<open>mysql2\<close> driver is \<open>null\<close>, a string or a number
  (integers here); reading a key that the row does not have gives \<open>undefined\<close>.
\<close>

datatype jsval = JUndefined | JNull | JStr string | JNum int

text \<open>\<^verbatim>\<open>Boolean(v)\<close>, the predicate of \<^verbatim>\<open>.filter(Boolean)\<close>.\<close>

fun truthy :: "jsval \<Rightarrow> bool" where
  "truthy JUndefined = False"
| "truthy JNull = False"
| "truthy (JStr s) = (s \<noteq> [])"
| "truthy (JNum n) = (n \<noteq> 0)"

text \<open>
  \<^verbatim>\<open>String.prototype.toLowerCase\<close> below U+0100: the letters A to Z, and the capital
  letters U+00C0 to U+00DE without the multiplication sign U+00D7, move up by 32.
\<close>

definition lower_char :: "char \<Rightarrow> char" where
  "lower_char c =
     (let n = (of_char c :: nat)
      in if (65 \<le> n \<and> n \<le> 90) \<or> (192 \<le> n \<and> n \<le> 222 \<and> n \<noteq> 215)
         then char_of (n + 32) else c)"

definition toLowerCase :: "string \<Rightarrow> string" where
  "toLowerCase s = map lower_char s"

text \<open>
  What \<^verbatim>\<open>String.prototype.trim\<close> strips, below U+0100: tab, line feed, vertical tab,
  form feed, carriage return, space and the no-break space U+00A0.
\<close>

definition is_space :: "char \<Rightarrow> bool" where
  "is_space c = ((of_char c :: nat) \<in> {9, 10, 11, 12, 13, 32, 160})"

definition trim :: "string \<Rightarrow> string" where
  "trim s = rev (dropWhile is_space (rev (dropWhile is_space s)))"

definition startsWith :: "string \<Rightarrow> string \<Rightarrow> bool" where
  "startsWith s p = (take (length p) s = p)"

text \<open>
  A value of type \<open>string | undefined\<close> used as a property key or inside a template
  string: \<open>undefined\<close> is rendered as the text \<^verbatim>\<open>undefined\<close>.
\<close>

fun js_str :: "string option \<Rightarrow> string" where
  "js_str None = ''undefined''"
| "js_str (Some s) = s"

text \<open>A result row: column name to value, in column order. \<open>row_get r k\<close> is \<^verbatim>\<open>r[k]\<close>.\<close>

type_synonym row = "(string \<times> jsval) list"

definition row_get :: "row \<Rightarrow> string \<Rightarrow> jsval" where
  "row_get r k = (case map_of r k of None \<Rightarrow> JUndefined | Some v \<Rightarrow> v)"

section \<open>The database server as the code sees it\<close>

text \<open>
  The statements the code sends over a connection. The identifiers and the parameter of
  the \<^verbatim>\<open>SELECT\<close> are kept apart instead of being spliced into SQL text:
  \<open>Select d t c w n\<close> is
  \<^verbatim>\<open>SELECT * FROM `d`.`t` WHERE LOWER(`c`) = LOWER(?) LIMIT n\<close> with parameter \<open>w\<close>.
\<close>

datatype query =
    ShowDatabases
  | ShowTables string
  | Describe string string
  | Select string string string string nat

text \<open>What the process does to the pool and the connection, in order.\<close>

datatype event = GetConnection | Ping | Release | Query query

type_synonym db_error = string

text \<open>
  The MySQL server and the pool are outside the repository, so their answers are a
  parameter: for each statement either an error (the rejected promise, \<open>Inl\<close> of its
  message) or the rows. \<open>SHOW DATABASES\<close> answers the \<open>Database\<close> field of each row,
  \<open>DESCRIBE\<close> the \<open>Field\<close> field of each row, \<open>SHOW TABLES\<close> whole rows (the code looks the
  key up itself). \<open>pool_error\<close> is the failure of \<^verbatim>\<open>pool.getConnection()\<close>, if any.
\<close>

record server =
  pool_error :: "db_error option"
  ping_error :: "db_error option"
  show_databases :: "db_error + string list"
  show_tables :: "string \<Rightarrow> db_error + (string \<times> string) list list"
  describe_table :: "string \<Rightarrow> string \<Rightarrow> db_error + string list"
  select_rows :: "string \<Rightarrow> string \<Rightarrow> string \<Rightarrow> string \<Rightarrow> nat \<Rightarrow> db_error + row list"

section \<open>Schema inspection\<close>

definition WORD_COLUMNS :: "string list" where
  "WORD_COLUMNS = [''word'', ''term'', ''lemma'', ''headword'', ''entry'', ''name'']"

definition DEF_COLUMNS :: "string list" where
  "DEF_COLUMNS = [''definition'', ''meaning'', ''gloss'', ''description'', ''explanation'']"

definition EX_COLUMNS :: "string list" where
  "EX_COLUMNS = [''example'', ''usage'', ''sentence'', ''samples'']"

definition SYSTEM_SCHEMAS :: "string list" where
  "SYSTEM_SCHEMAS = [''information_schema'', ''mysql'', ''performance_schema'', ''sys'']"

text \<open>
  An entry of \<^verbatim>\<open>inspectionSummary.candidates\<close>. \<open>wordCol\<close> is the result of
  \<^verbatim>\<open>Array.prototype.find\<close>, a string or \<open>undefined\<close>.
\<close>

record candidate =
  db :: string
  table :: string
  wordCol :: "string option"
  defCols :: "string list"
  exCols :: "string list"
  cols :: "string list"

record inspection_summary =
  databases :: "string list"
  candidates :: "candidate list"

text \<open>The process state that inspection changes: the cached summary and the event log.\<close>

record world =
  inspectionSummary :: inspection_summary
  events :: "event list"

definition initial_world :: world where
  "initial_world = \<lparr>inspectionSummary = \<lparr>databases = [], candidates = []\<rparr>, events = []\<rparr>"

definition emit :: "event \<Rightarrow> world \<Rightarrow> world" where
  "emit e w = w\<lparr>events := events w @ [e]\<rparr>"

definition push_candidate :: "candidate \<Rightarrow> world \<Rightarrow> world" where
  "push_candidate c w =
     w\<lparr>inspectionSummary :=
         (inspectionSummary w)\<lparr>candidates := candidates (inspectionSummary w) @ [c]\<rparr>\<rparr>"

text \<open>
  \<^verbatim>\<open>Object.keys(tables[0] || {}).find((k) => k.startsWith(`Tables_in_${db}`))\<close> and
  \<^verbatim>\<open>tables.map((row) => row[tableKey]).filter(Boolean)\<close>.
\<close>

definition table_names :: "string \<Rightarrow> (string \<times> string) list list \<Rightarrow> string list" where
  "table_names d tables =
     (let tableKey = find (\<lambda>k. startsWith k (''Tables_in_'' @ d))
                       (map fst (case tables of [] \<Rightarrow> [] | r # _ \<Rightarrow> r))
      in List.map_filter
           (\<lambda>r. case map_of r (js_str tableKey) of
                  None \<Rightarrow> None
                | Some s \<Rightarrow> if s \<noteq> [] then Some s else None)
           tables)"

text \<open>The body of the loop over the tables of one database, with its \<^verbatim>\<open>try/catch\<close>.\<close>

definition inspect_table :: "server \<Rightarrow> string \<Rightarrow> string \<Rightarrow> world \<Rightarrow> world" where
  "inspect_table srv d t w =
     (case describe_table srv d t of
        Inl e \<Rightarrow> emit (Query (Describe d t)) w
      | Inr desc \<Rightarrow>
          (let cs = map toLowerCase desc;
               hasWord = list_ex (\<lambda>c. c \<in> set cs) WORD_COLUMNS;
               hasDef = list_ex (\<lambda>c. c \<in> set cs) DEF_COLUMNS;
               hasEx = list_ex (\<lambda>c. c \<in> set cs) EX_COLUMNS;
               w1 = emit (Query (Describe d t)) w
           in if hasWord \<and> (hasDef \<or> hasEx)
              then push_candidate
                     \<lparr>db = d, table = t,
                      wordCol = find (\<lambda>c. c \<in> set cs) WORD_COLUMNS,
                      defCols = filter (\<lambda>c. c \<in> set cs) DEF_COLUMNS,
                      exCols = filter (\<lambda>c. c \<in> set cs) EX_COLUMNS,
                      cols = cs\<rparr> w1
              else w1))"

fun inspect_tables :: "server \<Rightarrow> string \<Rightarrow> string list \<Rightarrow> world \<Rightarrow> world" where
  "inspect_tables srv d [] w = w"
| "inspect_tables srv d (t # ts) w = inspect_tables srv d ts (inspect_table srv d t w)"

text \<open>
  The loop over the databases. \<open>SHOW TABLES\<close> is outside the inner \<^verbatim>\<open>try\<close>: its error
  leaves the loop (and \<open>inspectSchema\<close>) with what has been pushed so far.
\<close>

fun inspect_dbs :: "server \<Rightarrow> string list \<Rightarrow> world \<Rightarrow> db_error option \<times> world" where
  "inspect_dbs srv [] w = (None, w)"
| "inspect_dbs srv (d # ds) w =
     (case show_tables srv d of
        Inl e \<Rightarrow> (Some e, emit (Query (ShowTables d)) w)
      | Inr tables \<Rightarrow>
          inspect_dbs srv ds
            (inspect_tables srv d (table_names d tables) (emit (Query (ShowTables d)) w)))"

definition filteredDbNames :: "string \<Rightarrow> string list \<Rightarrow> string list" where
  "filteredDbNames DB_NAME dbNames =
     filter (\<lambda>d. d \<notin> set SYSTEM_SCHEMAS) (if DB_NAME \<noteq> [] then [DB_NAME] else dbNames)"

text \<open>\<open>inspectSchema\<close>: the error that escapes it, if any, and the state it leaves.\<close>

definition inspectSchema :: "server \<Rightarrow> string \<Rightarrow> world \<Rightarrow> db_error option \<times> world" where
  "inspectSchema srv DB_NAME w =
     (case pool_error srv of
        Some e \<Rightarrow> (Some e, emit GetConnection w)
      | None \<Rightarrow>
          (case show_databases srv of
             Inl e \<Rightarrow> (Some e, emit Release (emit (Query ShowDatabases) (emit GetConnection w)))
           | Inr dbNames \<Rightarrow>
               (case inspect_dbs srv (filteredDbNames DB_NAME dbNames)
                       (emit (Query ShowDatabases) (emit GetConnection w)) of
                  (Some e, w1) \<Rightarrow> (Some e, emit Release w1)
                | (None, w1) \<Rightarrow>
                    (None,
                     emit Release
                       (w1\<lparr>inspectionSummary :=
                             (inspectionSummary w1)\<lparr>databases := filteredDbNames DB_NAME dbNames\<rparr>\<rparr>)))))"

text \<open>
  The start of the process: connect, ping, inspect; whatever fails is caught and logged,
  and the listener starts in every case. The result is the state the listener starts with.
\<close>

definition startup :: "server \<Rightarrow> string \<Rightarrow> world" where
  "startup srv DB_NAME =
     (case pool_error srv of
        Some e \<Rightarrow> emit GetConnection initial_world
      | None \<Rightarrow>
          (case ping_error srv of
             Some e \<Rightarrow> emit Ping (emit GetConnection initial_world)
           | None \<Rightarrow>
               snd (inspectSchema srv DB_NAME
                      (emit Release (emit Ping (emit GetConnection initial_world))))))"

section \<open>The search request\<close>

record search_result =
  source :: string
  word :: jsval
  definitions :: "jsval list"
  examples :: "jsval list"
  row :: row

text \<open>The JSON bodies the handler sends.\<close>

datatype body =
    ErrorBody string
  | NotFoundBody string "search_result list" string
  | FoundBody string nat "search_result list"

record response =
  status :: nat
  body :: body

text \<open>
  What a request leaves behind: the response that the handler writes, and what the
  handler did to the pool and the connection. The response is \<open>None\<close> when the handler
  writes none: \<^verbatim>\<open>pool.getConnection()\<close> is awaited before the \<^verbatim>\<open>try\<close>, so its
  rejection leaves the handler. What the client then receives is decided by Express (a
  500 from the error handling of version 5, no answer from version 4), whose version the
  sources do not fix; every statement below about a response is made for requests that
  get their connection, or that are answered before asking for one.
\<close>

record outcome =
  response :: "response option"
  trace :: "event list"

text \<open>The object pushed for one row in the candidate phase.\<close>

definition candidate_result :: "candidate \<Rightarrow> row \<Rightarrow> search_result" where
  "candidate_result cand r =
     \<lparr>source = db cand @ ''.'' @ table cand,
      word = row_get r (js_str (wordCol cand)),
      definitions = filter truthy (map (\<lambda>c. row_get r c) (defCols cand)),
      examples = filter truthy (map (\<lambda>c. row_get r c) (exCols cand)),
      row = r\<rparr>"

text \<open>
  The candidate phase: the loop over \<^verbatim>\<open>inspectionSummary.candidates\<close>, carrying
  \<open>results\<close> and the event log. A failed query is caught inside the loop.
\<close>

fun candidate_phase ::
  "server \<Rightarrow> string \<Rightarrow> candidate list \<Rightarrow> search_result list \<times> event list
     \<Rightarrow> search_result list \<times> event list" where
  "candidate_phase srv w [] st = st"
| "candidate_phase srv w (cand # cands) (results, evs) =
     candidate_phase srv w cands
       (case select_rows srv (db cand) (table cand) (js_str (wordCol cand)) w 50 of
          Inl e \<Rightarrow> results
        | Inr rows \<Rightarrow> results @ map (candidate_result cand) rows,
        evs @ [Query (Select (db cand) (table cand) (js_str (wordCol cand)) w 50)])"

text \<open>The object pushed for one row in the fallback phase.\<close>

definition fallback_result :: "string \<Rightarrow> string \<Rightarrow> string \<Rightarrow> row \<Rightarrow> search_result" where
  "fallback_result d t possibleWordCol r =
     \<lparr>source = d @ ''.'' @ t,
      word = row_get r possibleWordCol,
      definitions = filter truthy (map (\<lambda>c. row_get r c) DEF_COLUMNS),
      examples = filter truthy (map (\<lambda>c. row_get r c) EX_COLUMNS),
      row = r\<rparr>"

text \<open>The body of the fallback's loop over tables, with its \<^verbatim>\<open>try/catch\<close>.\<close>

definition fallback_table ::
  "server \<Rightarrow> string \<Rightarrow> string \<Rightarrow> string \<Rightarrow> search_result list \<times> event list
     \<Rightarrow> search_result list \<times> event list" where
  "fallback_table srv w d t st =
     (case st of (results, evs) \<Rightarrow>
        (case describe_table srv d t of
           Inl e \<Rightarrow> (results, evs @ [Query (Describe d t)])
         | Inr desc \<Rightarrow>
             (let cs = map toLowerCase desc in
              case find (\<lambda>c. c \<in> set cs) WORD_COLUMNS of
                None \<Rightarrow> (results, evs @ [Query (Describe d t)])
              | Some possibleWordCol \<Rightarrow>
                  (case select_rows srv d t possibleWordCol w 25 of
                     Inl e \<Rightarrow>
                       (results,
                        evs @ [Query (Describe d t), Query (Select d t possibleWordCol w 25)])
                   | Inr rows \<Rightarrow>
                       (results @ map (fallback_result d t possibleWordCol) rows,
                        evs @ [Query (Describe d t), Query (Select d t possibleWordCol w 25)])))))"

fun fallback_tables ::
  "server \<Rightarrow> string \<Rightarrow> string \<Rightarrow> string list \<Rightarrow> search_result list \<times> event list
     \<Rightarrow> search_result list \<times> event list" where
  "fallback_tables srv w d [] st = st"
| "fallback_tables srv w d (t # ts) st = fallback_tables srv w d ts (fallback_table srv w d t st)"

text \<open>
  The fallback's loop over databases; as in inspection, \<open>SHOW TABLES\<close> is outside the
  inner \<^verbatim>\<open>try\<close>, so its error reaches the handler's \<^verbatim>\<open>catch\<close>.
\<close>

fun fallback_dbs ::
  "server \<Rightarrow> string \<Rightarrow> string list \<Rightarrow> search_result list \<times> event list
     \<Rightarrow> db_error option \<times> search_result list \<times> event list" where
  "fallback_dbs srv w [] st = (None, st)"
| "fallback_dbs srv w (d # ds) (results, evs) =
     (case show_tables srv d of
        Inl e \<Rightarrow> (Some e, results, evs @ [Query (ShowTables d)])
      | Inr tables \<Rightarrow>
          fallback_dbs srv w ds
            (fallback_tables srv w d (table_names d tables)
               (results, evs @ [Query (ShowTables d)])))"

definition fallback_phase ::
  "server \<Rightarrow> string \<Rightarrow> search_result list \<times> event list
     \<Rightarrow> db_error option \<times> search_result list \<times> event list" where
  "fallback_phase srv w st =
     (case st of (results, evs) \<Rightarrow>
        (case show_databases srv of
           Inl e \<Rightarrow> (Some e, results, evs @ [Query ShowDatabases])
         | Inr dbs \<Rightarrow>
             fallback_dbs srv w (filter (\<lambda>d. d \<notin> set SYSTEM_SCHEMAS) dbs)
               (results, evs @ [Query ShowDatabases])))"

text \<open>
  The handler of \<^verbatim>\<open>GET /api/search\<close>. \<open>cands\<close> is \<^verbatim>\<open>inspectionSummary.candidates\<close>
  at the time of the request, \<open>q\<close> is \<^verbatim>\<open>req.query.word\<close> (\<open>None\<close> when the parameter is
  absent), and \<open>word_param q\<close> is \<^verbatim>\<open>(req.query.word || '').toString().trim()\<close>.
\<close>

definition word_param :: "string option \<Rightarrow> string" where
  "word_param q = trim (case q of None \<Rightarrow> [] | Some s \<Rightarrow> s)"

definition search_handler :: "server \<Rightarrow> candidate list \<Rightarrow> string option \<Rightarrow> outcome" where
  "search_handler srv cands q =
     (let w = word_param q in
      if w = [] then
        \<lparr>response = Some \<lparr>status = 400, body = ErrorBody ''Missing required query parameter: word''\<rparr>,
         trace = []\<rparr>
      else
        (case pool_error srv of
           Some e \<Rightarrow> \<lparr>response = None, trace = [GetConnection]\<rparr>
         | None \<Rightarrow>
             (let st = candidate_phase srv w cands ([], [GetConnection]);
                  fin = (if fst st = [] then fallback_phase srv w st else (None, st))
              in case fin of
                   (Some e, results, evs) \<Rightarrow>
                     \<lparr>response = Some \<lparr>status = 500, body = ErrorBody ''Internal server error''\<rparr>,
                      trace = evs @ [Release]\<rparr>
                 | (None, results, evs) \<Rightarrow>
                     if results = [] then
                       \<lparr>response = Some \<lparr>status = 404, body = NotFoundBody w [] ''Not found''\<rparr>,
                        trace = evs @ [Release]\<rparr>
                     else
                       \<lparr>response = Some \<lparr>status = 200, body = FoundBody w (length results) results\<rparr>,
                        trace = evs @ [Release]\<rparr>)))"

section \<open>A MySQL server holding given data\<close>

text \<open>
  For running the code on the spec's examples: the answers of a server that holds the
  given databases. \<open>LOWER(c) = LOWER(?)\<close> compares text columns on their ASCII-lowered
  values; identifiers of columns are matched without regard to case, as MySQL does; a
  statement on a database, table or column that does not exist is an error.
\<close>

record sql_table =
  t_name :: string
  t_columns :: "string list"
  t_rows :: "row list"

record sql_database =
  d_name :: string
  d_tables :: "sql_table list"

definition lookup_table :: "sql_database list \<Rightarrow> string \<Rightarrow> string \<Rightarrow> sql_table option" where
  "lookup_table dbs d t =
     (case find (\<lambda>x. d_name x = d) dbs of
        None \<Rightarrow> None
      | Some x \<Rightarrow> find (\<lambda>y. t_name y = t) (d_tables x))"

definition row_matches :: "string \<Rightarrow> string \<Rightarrow> row \<Rightarrow> bool" where
  "row_matches c w r =
     (case find (\<lambda>kv. toLowerCase (fst kv) = toLowerCase c) r of
        Some (k, JStr s) \<Rightarrow> toLowerCase s = toLowerCase w
      | _ \<Rightarrow> False)"

definition mysql_server :: "sql_database list \<Rightarrow> server" where
  "mysql_server dbs =
     \<lparr>pool_error = None,
      ping_error = None,
      show_databases = Inr (map d_name dbs),
      show_tables = (\<lambda>d.
        case find (\<lambda>x. d_name x = d) dbs of
          None \<Rightarrow> Inl ''Unknown database''
        | Some x \<Rightarrow> Inr (map (\<lambda>t. [(''Tables_in_'' @ d, t_name t)]) (d_tables x))),
      describe_table = (\<lambda>d t.
        case lookup_table dbs d t of
          None \<Rightarrow> Inl ''Table does not exist''
        | Some y \<Rightarrow> Inr (t_columns y)),
      select_rows = (\<lambda>d t c w n.
        case lookup_table dbs d t of
          None \<Rightarrow> Inl ''Table does not exist''
        | Some y \<Rightarrow>
            if toLowerCase c \<in> set (map toLowerCase (t_columns y))
            then Inr (take n (filter (row_matches c w) (t_rows y)))
            else Inl ''Unknown column'')\<rparr>"

text \<open>
  The spec's example: beside the system schemas, one database with the one table
  \<open>words(word, definition)\<close> and the one row \<open>("apple", "a fruit")\<close>.
\<close>

definition words_table :: sql_table where
  "words_table =
     \<lparr>t_name = ''words'', t_columns = [''word'', ''definition''],
      t_rows = [[(''word'', JStr ''apple''), (''definition'', JStr ''a fruit'')]]\<rparr>"

definition lexicon_dbs :: "sql_database list" where
  "lexicon_dbs =
     [\<lparr>d_name = ''information_schema'', d_tables = []\<rparr>,
      \<lparr>d_name = ''lexicon'', d_tables = [words_table]\<rparr>,
      \<lparr>d_name = ''mysql'', d_tables = []\<rparr>,
      \<lparr>d_name = ''performance_schema'', d_tables = []\<rparr>,
      \<lparr>d_name = ''sys'', d_tables = []\<rparr>]"

text \<open>
  A table whose example column \<open>usage\<close> is a number (a count), holding zero, and the
  candidate that inspection records for it.
\<close>

definition usage_row :: row where
  "usage_row = [(''word'', JStr ''apple''), (''usage'', JNum 0)]"

definition usage_dbs :: "sql_database list" where
  "usage_dbs =
     [\<lparr>d_name = ''lexicon'',
       d_tables = [\<lparr>t_name = ''entries'', t_columns = [''word'', ''usage''],
                    t_rows = [usage_row]\<rparr>]\<rparr>]"

definition usage_candidate :: candidate where
  "usage_candidate =
     \<lparr>db = ''lexicon'', table = ''entries'', wordCol = Some ''word'', defCols = [],
      exCols = [''usage''], cols = [''word'', ''usage'']\<rparr>"

text \<open>A table whose only row has a word and a \<open>NULL\<close> definition.\<close>

definition bare_row :: row where
  "bare_row = [(''word'', JStr ''apple''), (''definition'', JNull)]"

definition bare_dbs :: "sql_database list" where
  "bare_dbs =
     [\<lparr>d_name = ''lexicon'',
       d_tables = [\<lparr>t_name = ''words'', t_columns = [''word'', ''definition''],
                    t_rows = [bare_row]\<rparr>]\<rparr>]"

definition bare_candidate :: candidate where
  "bare_candidate =
     \<lparr>db = ''lexicon'', table = ''words'', wordCol = Some ''word'',
      defCols = [''definition''], exCols = [], cols = [''word'', ''definition'']\<rparr>"

text \<open>
  A server that lists two databases and refuses \<open>SHOW TABLES\<close> on the second one; every
  other statement is answered as usual.
\<close>

definition denied_dbs :: "sql_database list" where
  "denied_dbs =
     [\<lparr>d_name = ''lexicon'', d_tables = [words_table]\<rparr>,
      \<lparr>d_name = ''restricted'', d_tables = []\<rparr>]"

definition denied_server :: server where
  "denied_server =
     (mysql_server denied_dbs)
       \<lparr>show_tables := (\<lambda>d. if d = ''restricted'' then Inl ''SHOW command denied''
                             else show_tables (mysql_server denied_dbs) d)\<rparr>"

text \<open>
  A server whose database lists a view that cannot be described, then the table
  \<open>words(word, definition)\<close>, then a table without any vocabulary column.
\<close>

definition flaky_dbs :: "sql_database list" where
  "flaky_dbs =
     [\<lparr>d_name = ''lexicon'',
       d_tables =
         [\<lparr>t_name = ''legacy_view'', t_columns = [''word'', ''definition''], t_rows = []\<rparr>,
          words_table,
          \<lparr>t_name = ''users'', t_columns = [''id'', ''email''], t_rows = []\<rparr>]\<rparr>]"

definition flaky_server :: server where
  "flaky_server =
     (mysql_server flaky_dbs)
       \<lparr>describe_table := (\<lambda>d t. if t = ''legacy_view'' then Inl ''View references invalid table''
                                 else describe_table (mysql_server flaky_dbs) d t)\<rparr>"

section \<open>The spec's wording, for comparison\<close>

text \<open>
  The spec's row mapping drops "empty/null values": the empty string and \<open>null\<close>, to
  which a value that is not there at all is added here.
\<close>

definition spec_drop_empty_null :: "jsval list \<Rightarrow> jsval list" where
  "spec_drop_empty_null vs =
     filter (\<lambda>v. v \<noteq> JNull \<and> v \<noteq> JUndefined \<and> v \<noteq> JStr []) vs"

text \<open>The spec's invariant of a candidate table.\<close>

definition cand_ok :: "candidate \<Rightarrow> bool" where
  "cand_ok c = ((\<exists>wc. wordCol c = Some wc \<and> wc \<in> set (cols c))
                \<and> set (defCols c) \<subseteq> set (cols c) \<and> set (exCols c) \<subseteq> set (cols c))"

section \<open>What inspection records, in closed form\<close>

text \<open>
  The candidates that the loop body adds for one table, those that the inner loop adds
  for one database, and whether \<open>SHOW TABLES\<close> answers for a database. The lemmas
  below show that the loops of \<open>inspectSchema\<close> compute exactly these.
\<close>

definition table_candidates :: "server \<Rightarrow> string \<Rightarrow> string \<Rightarrow> candidate list" where
  "table_candidates srv d t =
     (case describe_table srv d t of
        Inl e \<Rightarrow> []
      | Inr desc \<Rightarrow>
          (let cs = map toLowerCase desc
           in if list_ex (\<lambda>c. c \<in> set cs) WORD_COLUMNS
                 \<and> (list_ex (\<lambda>c. c \<in> set cs) DEF_COLUMNS \<or> list_ex (\<lambda>c. c \<in> set cs) EX_COLUMNS)
              then [\<lparr>db = d, table = t,
                     wordCol = find (\<lambda>c. c \<in> set cs) WORD_COLUMNS,
                     defCols = filter (\<lambda>c. c \<in> set cs) DEF_COLUMNS,
                     exCols = filter (\<lambda>c. c \<in> set cs) EX_COLUMNS,
                     cols = cs\<rparr>]
              else []))"

definition db_candidates :: "server \<Rightarrow> string \<Rightarrow> candidate list" where
  "db_candidates srv d =
     (case show_tables srv d of
        Inl e \<Rightarrow> []
      | Inr tables \<Rightarrow> concat (map (table_candidates srv d) (table_names d tables)))"

definition listed :: "server \<Rightarrow> string \<Rightarrow> bool" where
  "listed srv d = (\<not> isl (show_tables srv d))"

section \<open>Facts about the model\<close>

subsection \<open>Strings and values\<close>

lemma trim_all_space:
  assumes "\<forall>c\<in>set s. is_space c"
  shows "trim s = []"
  using assms by (auto simp: trim_def dest: set_dropWhileD)

lemma truthy_iff: "truthy v = (v \<notin> {JUndefined, JNull, JStr [], JNum 0})"
  by (cases v) simp_all

lemma find_list_ex: "list_ex P xs \<Longrightarrow> \<exists>x. find P xs = Some x \<and> P x"
  by (induction xs) auto

lemma word_param_Apple: "word_param (Some ''Apple'') = ''Apple''"
  by (simp add: word_param_def trim_def is_space_def)

lemma word_param_apple: "word_param (Some ''apple'') = ''apple''"
  by (simp add: word_param_def trim_def is_space_def)

subsection \<open>The candidate phase\<close>

lemma candidate_phase_results:
  "fst (candidate_phase srv w cands (results, evs)) =
     results @ concat (map (\<lambda>c.
        case select_rows srv (db c) (table c) (js_str (wordCol c)) w 50 of
          Inl e \<Rightarrow> []
        | Inr rows \<Rightarrow> map (candidate_result c) rows) cands)"
  by (induction cands arbitrary: results evs) (auto split: sum.splits)

lemma candidate_phase_events:
  "snd (candidate_phase srv w cands (results, evs)) =
     evs @ map (\<lambda>c. Query (Select (db c) (table c) (js_str (wordCol c)) w 50)) cands"
  by (induction cands arbitrary: results evs) auto

lemma candidate_phase_no_listing:
  "Query ShowDatabases \<notin> set (snd (candidate_phase srv w cands (results, [GetConnection])))"
  by (auto simp: candidate_phase_events)

lemma candidate_rows_in_results:
  assumes "cand \<in> set cands"
    and "select_rows srv (db cand) (table cand) (js_str (wordCol cand)) w 50 = Inr rows"
  shows "set (map (candidate_result cand) rows) \<subseteq> set (fst (candidate_phase srv w cands (results, evs)))"
  using assms by (force simp: candidate_phase_results)

subsection \<open>The fallback phase\<close>

lemma fallback_table_events:
  "set (snd st) \<subseteq> set (snd (fallback_table srv w d t st))"
  by (auto simp: fallback_table_def Let_def split: prod.splits sum.splits option.splits)

lemma fallback_tables_events:
  "set (snd st) \<subseteq> set (snd (fallback_tables srv w d ts st))"
proof (induction ts arbitrary: st)
  case Nil
  show ?case by simp
next
  case (Cons t ts)
  have "set (snd st) \<subseteq> set (snd (fallback_table srv w d t st))"
    by (rule fallback_table_events)
  also have "\<dots> \<subseteq> set (snd (fallback_tables srv w d ts (fallback_table srv w d t st)))"
    by (rule Cons.IH)
  finally show ?case by simp
qed

lemma fallback_dbs_events:
  "set (snd st) \<subseteq> set (snd (snd (fallback_dbs srv w ds st)))"
proof (induction ds arbitrary: st)
  case Nil
  show ?case by simp
next
  case (Cons d ds)
  obtain results evs where st: "st = (results, evs)" by (cases st)
  show ?case
  proof (cases "show_tables srv d")
    case (Inl e)
    then show ?thesis by (auto simp: st)
  next
    case (Inr tables)
    let ?st1 = "fallback_tables srv w d (table_names d tables) (results, evs @ [Query (ShowTables d)])"
    have "set evs \<subseteq> set (snd ?st1)"
      using fallback_tables_events [of "(results, evs @ [Query (ShowTables d)])" srv w d "table_names d tables"]
      by auto
    also have "\<dots> \<subseteq> set (snd (snd (fallback_dbs srv w ds ?st1)))"
      by (rule Cons.IH)
    finally show ?thesis by (simp add: st Inr)
  qed
qed

lemma fallback_phase_lists_databases:
  "Query ShowDatabases \<in> set (snd (snd (fallback_phase srv w st)))"
proof (cases st)
  case (Pair results evs)
  show ?thesis
  proof (cases "show_databases srv")
    case (Inl e)
    then show ?thesis by (simp add: fallback_phase_def Pair)
  next
    case (Inr dbs)
    have "Query ShowDatabases \<in> set (snd (results, evs @ [Query ShowDatabases]))" by simp
    then show ?thesis
      using fallback_dbs_events [of "(results, evs @ [Query ShowDatabases])" srv w]
      by (auto simp: fallback_phase_def Pair Inr)
  qed
qed

lemma fallback_dbs_error:
  "(\<exists>e. fst (fallback_dbs srv w ds st) = Some e) = list_ex (\<lambda>d. isl (show_tables srv d)) ds"
proof (induction ds arbitrary: st)
  case Nil
  show ?case by simp
next
  case (Cons d ds)
  obtain results evs where st: "st = (results, evs)" by (cases st)
  show ?case
    by (cases "show_tables srv d") (simp_all add: st Cons.IH)
qed

subsection \<open>The handler, case by case\<close>

lemma handler_blank:
  "word_param q = [] \<Longrightarrow>
   search_handler srv cands q =
     \<lparr>response = Some \<lparr>status = 400, body = ErrorBody ''Missing required query parameter: word''\<rparr>,
      trace = []\<rparr>"
  by (simp add: search_handler_def)

lemma handler_found:
  assumes "word_param q = w" "w \<noteq> []" "pool_error srv = None"
    and "candidate_phase srv w cands ([], [GetConnection]) = (results, evs)" "results \<noteq> []"
  shows "search_handler srv cands q =
     \<lparr>response = Some \<lparr>status = 200, body = FoundBody w (length results) results\<rparr>,
      trace = evs @ [Release]\<rparr>"
  using assms by (simp add: search_handler_def Let_def)

lemma handler_fallback:
  assumes "word_param q = w" "w \<noteq> []" "pool_error srv = None"
    and "fst (candidate_phase srv w cands ([], [GetConnection])) = []"
  shows "search_handler srv cands q =
     (case fallback_phase srv w (candidate_phase srv w cands ([], [GetConnection])) of
        (Some e, results, evs) \<Rightarrow>
          \<lparr>response = Some \<lparr>status = 500, body = ErrorBody ''Internal server error''\<rparr>,
           trace = evs @ [Release]\<rparr>
      | (None, results, evs) \<Rightarrow>
          if results = [] then
            \<lparr>response = Some \<lparr>status = 404, body = NotFoundBody w [] ''Not found''\<rparr>,
             trace = evs @ [Release]\<rparr>
          else
            \<lparr>response = Some \<lparr>status = 200, body = FoundBody w (length results) results\<rparr>,
             trace = evs @ [Release]\<rparr>)"
  using assms by (simp add: search_handler_def Let_def)

subsection \<open>Inspection keeps the invariant of candidates\<close>

lemma emit_summary [simp]: "inspectionSummary (emit e w) = inspectionSummary w"
  by (simp add: emit_def)

lemma inspect_table_ok:
  assumes "list_all cand_ok (candidates (inspectionSummary w))"
  shows "list_all cand_ok (candidates (inspectionSummary (inspect_table srv d t w)))"
proof (cases "describe_table srv d t")
  case (Inl e)
  with assms show ?thesis by (simp add: inspect_table_def emit_def)
next
  case (Inr desc)
  show ?thesis
  proof (cases "list_ex (\<lambda>c. c \<in> set (map toLowerCase desc)) WORD_COLUMNS")
    case True
    from find_list_ex [OF True] obtain wc
      where "find (\<lambda>c. c \<in> set (map toLowerCase desc)) WORD_COLUMNS = Some wc"
        and "wc \<in> set (map toLowerCase desc)" by blast
    with assms Inr show ?thesis
      by (auto simp: inspect_table_def Let_def emit_def push_candidate_def cand_ok_def)
  next
    case False
    with assms Inr show ?thesis
      by (simp add: inspect_table_def Let_def emit_def)
  qed
qed

lemma inspect_tables_ok:
  "list_all cand_ok (candidates (inspectionSummary w)) \<Longrightarrow>
   list_all cand_ok (candidates (inspectionSummary (inspect_tables srv d ts w)))"
  by (induction ts arbitrary: w) (simp_all add: inspect_table_ok)

lemma inspect_dbs_ok:
  "list_all cand_ok (candidates (inspectionSummary w)) \<Longrightarrow>
   list_all cand_ok (candidates (inspectionSummary (snd (inspect_dbs srv ds w))))"
proof (induction ds arbitrary: w)
  case Nil
  then show ?case by simp
next
  case (Cons d ds)
  show ?case
  proof (cases "show_tables srv d")
    case (Inl e)
    with Cons.prems show ?thesis by simp
  next
    case (Inr tables)
    have "list_all cand_ok (candidates (inspectionSummary
            (inspect_tables srv d (table_names d tables) (emit (Query (ShowTables d)) w))))"
      using Cons.prems by (intro inspect_tables_ok) simp
    then show ?thesis
      by (simp add: Inr Cons.IH)
  qed
qed

lemma inspectSchema_candidates:
  "candidates (inspectionSummary (snd (inspectSchema srv DB_NAME w))) =
     (case pool_error srv of
        Some e \<Rightarrow> candidates (inspectionSummary w)
      | None \<Rightarrow>
          (case show_databases srv of
             Inl e \<Rightarrow> candidates (inspectionSummary w)
           | Inr dbNames \<Rightarrow>
               candidates (inspectionSummary (snd (inspect_dbs srv (filteredDbNames DB_NAME dbNames)
                 (emit (Query ShowDatabases) (emit GetConnection w)))))))"
  by (simp add: inspectSchema_def split: option.splits sum.splits prod.splits)

lemma inspectSchema_ok:
  assumes "list_all cand_ok (candidates (inspectionSummary w))"
  shows "list_all cand_ok (candidates (inspectionSummary (snd (inspectSchema srv DB_NAME w))))"
proof -
  have "list_all cand_ok (candidates (inspectionSummary (snd (inspect_dbs srv ds
          (emit (Query ShowDatabases) (emit GetConnection w))))))" for ds
    using assms by (intro inspect_dbs_ok) simp
  with assms show ?thesis
    by (simp add: inspectSchema_candidates split: option.splits sum.splits)
qed

lemma startup_ok: "list_all cand_ok (candidates (inspectionSummary (startup srv DB_NAME)))"
proof -
  have "list_all cand_ok (candidates (inspectionSummary
          (snd (inspectSchema srv DB_NAME (emit Release (emit Ping (emit GetConnection initial_world)))))))"
    by (intro inspectSchema_ok) (simp add: initial_world_def)
  then show ?thesis
    by (simp add: startup_def initial_world_def split: option.splits)
qed

subsection \<open>The example servers, evaluated\<close>

lemma lexicon_inspected:
  "candidates (inspectionSummary (startup (mysql_server lexicon_dbs) [])) =
     [\<lparr>db = ''lexicon'', table = ''words'', wordCol = Some ''word'',
       defCols = [''definition''], exCols = [], cols = [''word'', ''definition'']\<rparr>]"
  by code_simp

lemma usage_inspected:
  "candidates (inspectionSummary (startup (mysql_server usage_dbs) [])) = [usage_candidate]"
  by code_simp

lemma usage_select:
  "select_rows (mysql_server usage_dbs) ''lexicon'' ''entries'' ''word'' ''apple'' 50
     = Inr [usage_row]"
  by code_simp

lemma bare_inspected:
  "candidates (inspectionSummary (startup (mysql_server bare_dbs) [])) = [bare_candidate]"
  by code_simp

lemma bare_select:
  "select_rows (mysql_server bare_dbs) ''lexicon'' ''words'' ''word'' ''apple'' 50 = Inr [bare_row]"
  by code_simp

subsection \<open>Inspection that fails part-way\<close>

lemma filtered_system:
  "DB_NAME \<in> set SYSTEM_SCHEMAS \<Longrightarrow> filteredDbNames DB_NAME dbNames = []"
  by (auto simp: filteredDbNames_def SYSTEM_SCHEMAS_def)

lemma inspect_table_cong:
  "inspectionSummary w = inspectionSummary w' \<Longrightarrow>
   inspectionSummary (inspect_table srv d t w) = inspectionSummary (inspect_table srv d t w')"
  by (simp add: inspect_table_def Let_def push_candidate_def split: sum.splits)

lemma inspect_tables_cong:
  "inspectionSummary w = inspectionSummary w' \<Longrightarrow>
   inspectionSummary (inspect_tables srv d ts w) = inspectionSummary (inspect_tables srv d ts w')"
proof (induction ts arbitrary: w w')
  case Nil
  then show ?case by simp
next
  case (Cons t ts)
  show ?case
    by (simp add: Cons.IH [OF inspect_table_cong [OF Cons.prems]])
qed

lemma inspect_dbs_cong:
  "inspectionSummary w = inspectionSummary w' \<Longrightarrow>
   inspectionSummary (snd (inspect_dbs srv ds w)) = inspectionSummary (snd (inspect_dbs srv ds w'))"
proof (induction ds arbitrary: w w')
  case Nil
  then show ?case by simp
next
  case (Cons d ds)
  show ?case
  proof (cases "show_tables srv d")
    case (Inl e)
    with Cons.prems show ?thesis by simp
  next
    case (Inr tables)
    have "inspectionSummary (inspect_tables srv d (table_names d tables) (emit (Query (ShowTables d)) w))
        = inspectionSummary (inspect_tables srv d (table_names d tables) (emit (Query (ShowTables d)) w'))"
      using Cons.prems by (intro inspect_tables_cong) simp
    from Cons.IH [OF this] show ?thesis
      by (simp add: Inr)
  qed
qed

lemma inspect_dbs_failing:
  assumes "isl (show_tables srv d)"
  shows "(\<exists>e. fst (inspect_dbs srv (pre @ d # post) w) = Some e)
         \<and> inspectionSummary (snd (inspect_dbs srv (pre @ d # post) w))
             = inspectionSummary (snd (inspect_dbs srv pre w))"
proof (induction pre arbitrary: w)
  case Nil
  from assms show ?case by (cases "show_tables srv d") simp_all
next
  case (Cons p pre)
  show ?case
    by (cases "show_tables srv p") (simp_all add: Cons.IH)
qed

lemma inspect_table_databases:
  "databases (inspectionSummary (inspect_table srv d t w)) = databases (inspectionSummary w)"
  by (simp add: inspect_table_def Let_def push_candidate_def split: sum.splits)

lemma inspect_tables_databases:
  "databases (inspectionSummary (inspect_tables srv d ts w)) = databases (inspectionSummary w)"
  by (induction ts arbitrary: w) (simp_all add: inspect_table_databases)

lemma inspect_dbs_databases:
  "databases (inspectionSummary (snd (inspect_dbs srv ds w))) = databases (inspectionSummary w)"
proof (induction ds arbitrary: w)
  case Nil
  show ?case by simp
next
  case (Cons d ds)
  show ?case
    by (cases "show_tables srv d") (simp_all add: Cons.IH inspect_tables_databases)
qed

lemma startup_unreachable:
  assumes "pool_error srv \<noteq> None \<or> ping_error srv \<noteq> None \<or> isl (show_databases srv)"
  shows "inspectionSummary (startup srv DB_NAME) = \<lparr>databases = [], candidates = []\<rparr>"
proof (cases "pool_error srv")
  case (Some e)
  then show ?thesis by (simp add: startup_def initial_world_def)
next
  case None
  note p = this
  show ?thesis
  proof (cases "ping_error srv")
    case (Some e)
    with p show ?thesis by (simp add: startup_def initial_world_def)
  next
    case None
    with p assms obtain e where "show_databases srv = Inl e"
      by (cases "show_databases srv") auto
    with p None show ?thesis
      by (simp add: startup_def inspectSchema_def initial_world_def)
  qed
qed

lemma startup_listing_fails:
  assumes "pool_error srv = None" and "ping_error srv = None"
    and "show_databases srv = Inr dbNames"
    and "filteredDbNames DB_NAME dbNames = pre @ d # post"
    and "isl (show_tables srv d)"
  shows "(\<exists>e. fst (inspectSchema srv DB_NAME
                    (emit Release (emit Ping (emit GetConnection initial_world)))) = Some e)
         \<and> databases (inspectionSummary (startup srv DB_NAME)) = []
         \<and> candidates (inspectionSummary (startup srv DB_NAME))
             = candidates (inspectionSummary (snd (inspect_dbs srv pre initial_world)))"
proof -
  let ?w0 = "emit Release (emit Ping (emit GetConnection initial_world))"
  let ?w1 = "emit (Query ShowDatabases) (emit GetConnection ?w0)"
  note f = assms(5)
  obtain e where e: "fst (inspect_dbs srv (pre @ d # post) ?w1) = Some e"
    using inspect_dbs_failing [OF f, of pre post ?w1] by blast
  have "inspectionSummary ?w1 = inspectionSummary initial_world" by simp
  then have c: "inspectionSummary (snd (inspect_dbs srv pre ?w1))
                  = inspectionSummary (snd (inspect_dbs srv pre initial_world))"
    by (rule inspect_dbs_cong)
  have s: "inspectionSummary (snd (inspect_dbs srv (pre @ d # post) ?w1))
             = inspectionSummary (snd (inspect_dbs srv pre initial_world))"
    using inspect_dbs_failing [OF f, of pre post ?w1] c by simp
  obtain w2 where w2: "inspect_dbs srv (pre @ d # post) ?w1 = (Some e, w2)"
    using e by (cases "inspect_dbs srv (pre @ d # post) ?w1") simp
  have i: "inspectSchema srv DB_NAME ?w0 = (Some e, emit Release w2)"
    using assms(1,3,4) w2 by (simp add: inspectSchema_def)
  have st: "startup srv DB_NAME = emit Release w2"
    using assms(1,2) i by (simp add: startup_def)
  from s w2 have s2: "inspectionSummary w2 = inspectionSummary (snd (inspect_dbs srv pre initial_world))"
    by simp
  have d0: "databases (inspectionSummary (snd (inspect_dbs srv pre initial_world))) = []"
    by (simp add: inspect_dbs_databases initial_world_def)
  show ?thesis
    by (simp add: i st s2 d0)
qed

subsection \<open>More of the example servers, evaluated\<close>

lemma denied_inspected:
  "candidates (inspectionSummary (startup denied_server [])) =
     [\<lparr>db = ''lexicon'', table = ''words'', wordCol = Some ''word'',
       defCols = [''definition''], exCols = [], cols = [''word'', ''definition'']\<rparr>]"
  by code_simp

lemma denied_prefix_inspected:
  "candidates (inspectionSummary (snd (inspect_dbs denied_server [''lexicon''] initial_world))) =
     [\<lparr>db = ''lexicon'', table = ''words'', wordCol = Some ''word'',
       defCols = [''definition''], exCols = [], cols = [''word'', ''definition'']\<rparr>]"
  by code_simp

lemma denied_facts:
  "pool_error denied_server = None" "ping_error denied_server = None"
  "show_databases denied_server = Inr [''lexicon'', ''restricted'']"
  "show_tables denied_server ''restricted'' = Inl ''SHOW command denied''"
  "filteredDbNames [] [''lexicon'', ''restricted''] = [''lexicon''] @ ''restricted'' # []"
  by code_simp+

lemma lexicon_unknown_database:
  assumes "DB_NAME \<notin> set (map d_name lexicon_dbs)"
  shows "show_tables (mysql_server lexicon_dbs) DB_NAME = Inl ''Unknown database''"
  using assms by (auto simp: mysql_server_def lexicon_dbs_def)

lemma lexicon_named_inspected:
  "candidates (inspectionSummary (startup (mysql_server lexicon_dbs) ''lexicon'')) =
     [\<lparr>db = ''lexicon'', table = ''words'', wordCol = Some ''word'',
       defCols = [''definition''], exCols = [], cols = [''word'', ''definition'']\<rparr>]"
  by code_simp

lemma lexicon_other_inspected:
  assumes "DB_NAME \<noteq> []" and "DB_NAME \<noteq> ''lexicon''"
  shows "candidates (inspectionSummary (startup (mysql_server lexicon_dbs) DB_NAME)) = []"
proof (cases "DB_NAME \<in> set SYSTEM_SCHEMAS")
  case True
  then show ?thesis
    by (simp add: startup_unreachable startup_def inspectSchema_candidates filtered_system
          initial_world_def mysql_server_def)
next
  case False
  with assms have "DB_NAME \<notin> set (map d_name lexicon_dbs)"
    by (auto simp: lexicon_dbs_def SYSTEM_SCHEMAS_def)
  then have u: "show_tables (mysql_server lexicon_dbs) DB_NAME = Inl ''Unknown database''"
    by (rule lexicon_unknown_database)
  have f: "filteredDbNames DB_NAME dbNames = [DB_NAME]" for dbNames
    using False assms by (simp add: filteredDbNames_def)
  have p: "pool_error (mysql_server lexicon_dbs) = None" "ping_error (mysql_server lexicon_dbs) = None"
    by (simp_all add: mysql_server_def)
  have s: "show_databases (mysql_server lexicon_dbs) = Inr (map d_name lexicon_dbs)"
    by (simp add: mysql_server_def)
  show ?thesis
    by (simp add: startup_def p s inspectSchema_candidates f u initial_world_def)
qed

lemma lexicon_search_by_candidate:
  "response (search_handler (mysql_server lexicon_dbs)
     [\<lparr>db = ''lexicon'', table = ''words'', wordCol = Some ''word'',
       defCols = [''definition''], exCols = [], cols = [''word'', ''definition'']\<rparr>]
     (Some ''Apple'')) =
   Some \<lparr>status = 200,
     body = FoundBody ''Apple'' 1
       [\<lparr>source = ''lexicon.words'', word = JStr ''apple'', definitions = [JStr ''a fruit''],
         examples = [], row = [(''word'', JStr ''apple''), (''definition'', JStr ''a fruit'')]\<rparr>]\<rparr>"
  by code_simp

lemma lexicon_search_by_fallback:
  "response (search_handler (mysql_server lexicon_dbs) [] (Some ''Apple'')) =
   Some \<lparr>status = 200,
     body = FoundBody ''Apple'' 1
       [\<lparr>source = ''lexicon.words'', word = JStr ''apple'', definitions = [JStr ''a fruit''],
         examples = [], row = [(''word'', JStr ''apple''), (''definition'', JStr ''a fruit'')]\<rparr>]\<rparr>"
  by code_simp

subsection \<open>The loops of inspection compute the closed form\<close>

lemma inspect_table_closed:
  "inspectionSummary (inspect_table srv d t w) =
     (inspectionSummary w)\<lparr>candidates := candidates (inspectionSummary w) @ table_candidates srv d t\<rparr>"
  by (simp add: inspect_table_def table_candidates_def Let_def push_candidate_def split: sum.splits)

lemma inspect_tables_closed:
  "inspectionSummary (inspect_tables srv d ts w) =
     (inspectionSummary w)\<lparr>candidates :=
        candidates (inspectionSummary w) @ concat (map (table_candidates srv d) ts)\<rparr>"
  by (induction ts arbitrary: w) (simp_all add: inspect_table_closed)

lemma inspect_dbs_closed:
  "inspectionSummary (snd (inspect_dbs srv ds w)) =
     (inspectionSummary w)\<lparr>candidates :=
        candidates (inspectionSummary w)
          @ concat (map (db_candidates srv) (takeWhile (listed srv) ds))\<rparr>"
proof (induction ds arbitrary: w)
  case Nil
  show ?case by simp
next
  case (Cons d ds)
  show ?case
    by (cases "show_tables srv d")
       (simp_all add: Cons.IH inspect_tables_closed listed_def db_candidates_def)
qed

lemma inspect_dbs_completes:
  "(fst (inspect_dbs srv ds w) = None) = list_all (listed srv) ds"
proof (induction ds arbitrary: w)
  case Nil
  show ?case by simp
next
  case (Cons d ds)
  show ?case
    by (cases "show_tables srv d") (simp_all add: Cons.IH listed_def)
qed

lemma inspectSchema_closed:
  assumes "pool_error srv = None" and "show_databases srv = Inr dbNames"
  shows "inspectionSummary (snd (inspectSchema srv DB_NAME w)) =
     \<lparr>databases = (if list_all (listed srv) (filteredDbNames DB_NAME dbNames)
                    then filteredDbNames DB_NAME dbNames else databases (inspectionSummary w)),
      candidates = candidates (inspectionSummary w)
        @ concat (map (db_candidates srv) (takeWhile (listed srv) (filteredDbNames DB_NAME dbNames)))\<rparr>"
proof -
  let ?w1 = "emit (Query ShowDatabases) (emit GetConnection w)"
  let ?f = "filteredDbNames DB_NAME dbNames"
  obtain err w2 where r: "inspect_dbs srv ?f ?w1 = (err, w2)"
    by (cases "inspect_dbs srv ?f ?w1")
  have c: "inspectionSummary w2 =
     (inspectionSummary w)\<lparr>candidates :=
        candidates (inspectionSummary w) @ concat (map (db_candidates srv) (takeWhile (listed srv) ?f))\<rparr>"
    using inspect_dbs_closed [of srv ?f ?w1] by (simp add: r)
  have e: "(err = None) = list_all (listed srv) ?f"
    using inspect_dbs_completes [of srv ?f ?w1] by (simp add: r)
  show ?thesis
    using assms e by (cases err) (simp_all add: inspectSchema_def r c)
qed

lemma startup_closed:
  assumes "pool_error srv = None" and "ping_error srv = None"
    and "show_databases srv = Inr dbNames"
  shows "inspectionSummary (startup srv DB_NAME) =
     \<lparr>databases = (if list_all (listed srv) (filteredDbNames DB_NAME dbNames)
                    then filteredDbNames DB_NAME dbNames else []),
      candidates =
        concat (map (db_candidates srv) (takeWhile (listed srv) (filteredDbNames DB_NAME dbNames)))\<rparr>"
  using assms
  by (simp add: startup_def inspectSchema_closed [OF assms(1,3)] initial_world_def)

lemma vocabulary_meets:
  "list_ex (\<lambda>c. c \<in> set cs) xs = (set cs \<inter> set xs \<noteq> {})"
  by (auto simp: list_ex_iff)

lemma table_candidates_cases:
  assumes "describe_table srv d t = Inr desc"
  shows "table_candidates srv d t =
     (if set (map toLowerCase desc) \<inter> set WORD_COLUMNS \<noteq> {}
         \<and> (set (map toLowerCase desc) \<inter> set DEF_COLUMNS \<noteq> {}
            \<or> set (map toLowerCase desc) \<inter> set EX_COLUMNS \<noteq> {})
      then [\<lparr>db = d, table = t,
             wordCol = find (\<lambda>c. c \<in> set (map toLowerCase desc)) WORD_COLUMNS,
             defCols = filter (\<lambda>c. c \<in> set (map toLowerCase desc)) DEF_COLUMNS,
             exCols = filter (\<lambda>c. c \<in> set (map toLowerCase desc)) EX_COLUMNS,
             cols = map toLowerCase desc\<rparr>]
      else [])"
  using assms by (simp add: table_candidates_def Let_def vocabulary_meets)

lemma table_candidates_names:
  assumes "c \<in> set (table_candidates srv d t)"
  shows "db c = d \<and> table c = t"
  using assms
  by (cases "describe_table srv d t")
     (auto simp: table_candidates_def Let_def split: if_splits)

lemma db_candidates_member:
  assumes "c \<in> set (db_candidates srv d)"
  shows "db c = d \<and> c \<in> set (table_candidates srv d (table c))"
proof (cases "show_tables srv d")
  case (Inl e)
  with assms show ?thesis by (simp add: db_candidates_def)
next
  case (Inr tables)
  with assms obtain t where "c \<in> set (table_candidates srv d t)"
    by (auto simp: db_candidates_def)
  with table_candidates_names [OF this] show ?thesis by simp
qed

lemma db_candidates_holds:
  assumes "show_tables srv d = Inr tables" and "t \<in> set (table_names d tables)"
  shows "set (table_candidates srv d t) \<subseteq> set (db_candidates srv d)"
  using assms by (auto simp: db_candidates_def)

lemma word_vocabulary:
  "set WORD_COLUMNS = {''word'', ''term'', ''lemma'', ''headword'', ''entry'', ''name''}"
  by (simp add: WORD_COLUMNS_def)

lemma startup_skips_failed_describe:
  assumes "show_tables srv d = Inr tables" and "table_names d tables = ts1 @ t # ts2"
    and "isl (describe_table srv d t)" and "table_names d tables' = ts1 @ ts2"
  shows "inspectionSummary (startup srv DB_NAME) =
         inspectionSummary (startup (srv\<lparr>show_tables := (show_tables srv)(d := Inr tables')\<rparr>) DB_NAME)"
proof -
  let ?srv = "srv\<lparr>show_tables := (show_tables srv)(d := Inr tables')\<rparr>"
  have tc: "table_candidates ?srv = table_candidates srv"
    by (intro ext) (simp add: table_candidates_def)
  have none: "table_candidates srv d t = []"
    using assms(3) by (cases "describe_table srv d t") (simp_all add: table_candidates_def)
  have dc: "db_candidates ?srv = db_candidates srv"
  proof
    fix x show "db_candidates ?srv x = db_candidates srv x"
      by (cases "x = d") (simp_all add: db_candidates_def tc assms none split: sum.splits)
  qed
  have li: "listed ?srv = listed srv"
    by (intro ext) (simp add: listed_def assms(1))
  show ?thesis
  proof (cases "pool_error srv = None \<and> ping_error srv = None")
    case False
    then have "pool_error srv \<noteq> None \<or> ping_error srv \<noteq> None \<or> isl (show_databases srv)"
      by auto
    moreover from False
    have "pool_error ?srv \<noteq> None \<or> ping_error ?srv \<noteq> None \<or> isl (show_databases ?srv)"
      by auto
    ultimately show ?thesis by (simp only: startup_unreachable)
  next
    case True
    show ?thesis
    proof (cases "show_databases srv")
      case (Inl e)
      then have "pool_error srv \<noteq> None \<or> ping_error srv \<noteq> None \<or> isl (show_databases srv)"
        and "pool_error ?srv \<noteq> None \<or> ping_error ?srv \<noteq> None \<or> isl (show_databases ?srv)"
        by simp_all
      then show ?thesis by (simp only: startup_unreachable)
    next
      case (Inr dbNames)
      have "inspectionSummary (startup ?srv DB_NAME) =
         \<lparr>databases = (if list_all (listed ?srv) (filteredDbNames DB_NAME dbNames)
                    then filteredDbNames DB_NAME dbNames else []),
          candidates = concat (map (db_candidates ?srv)
                         (takeWhile (listed ?srv) (filteredDbNames DB_NAME dbNames)))\<rparr>"
        using True Inr by (intro startup_closed) simp_all
      moreover have "inspectionSummary (startup srv DB_NAME) =
         \<lparr>databases = (if list_all (listed srv) (filteredDbNames DB_NAME dbNames)
                    then filteredDbNames DB_NAME dbNames else []),
          candidates = concat (map (db_candidates srv)
                         (takeWhile (listed srv) (filteredDbNames DB_NAME dbNames)))\<rparr>"
        using True Inr by (intro startup_closed) simp_all
      ultimately show ?thesis by (simp only: dc li)
    qed
  qed
qed

subsection \<open>The server with the broken view, evaluated\<close>

lemma flaky_facts:
  "pool_error flaky_server = None" "ping_error flaky_server = None"
  "show_databases flaky_server = Inr [''lexicon'']"
  "filteredDbNames [] [''lexicon''] = [] @ ''lexicon'' # []"
  "show_tables flaky_server ''lexicon'' =
     Inr [[(''Tables_in_lexicon'', ''legacy_view'')], [(''Tables_in_lexicon'', ''words'')],
          [(''Tables_in_lexicon'', ''users'')]]"
  "table_names ''lexicon''
     [[(''Tables_in_lexicon'', ''legacy_view'')], [(''Tables_in_lexicon'', ''words'')],
      [(''Tables_in_lexicon'', ''users'')]] = [] @ ''legacy_view'' # [''words'', ''users'']"
  "table_names ''lexicon''
     [[(''Tables_in_lexicon'', ''words'')], [(''Tables_in_lexicon'', ''users'')]]
     = [] @ [''words'', ''users'']"
  "describe_table flaky_server ''lexicon'' ''legacy_view'' = Inl ''View references invalid table''"
  "describe_table flaky_server ''lexicon'' ''words'' = Inr [''word'', ''definition'']"
  "describe_table flaky_server ''lexicon'' ''users'' = Inr [''id'', ''email'']"
  by code_simp+

lemma flaky_vocabulary:
  "set (map toLowerCase [''word'', ''definition''])
     \<inter> {''word'', ''term'', ''lemma'', ''headword'', ''entry'', ''name''} \<noteq> {}
   \<and> (set (map toLowerCase [''word'', ''definition'']) \<inter> set DEF_COLUMNS \<noteq> {}
      \<or> set (map toLowerCase [''word'', ''definition'']) \<inter> set EX_COLUMNS \<noteq> {})"
  "\<not> (set (map toLowerCase [''id'', ''email''])
     \<inter> {''word'', ''term'', ''lemma'', ''headword'', ''entry'', ''name''} \<noteq> {}
   \<and> (set (map toLowerCase [''id'', ''email'']) \<inter> set DEF_COLUMNS \<noteq> {}
      \<or> set (map toLowerCase [''id'', ''email'']) \<inter> set EX_COLUMNS \<noteq> {}))"
  by code_simp+

lemma flaky_unlisted_inspected:
  "inspectionSummary
     (startup (flaky_server\<lparr>show_tables := (show_tables flaky_server)(''lexicon'' :=
        Inr [[(''Tables_in_lexicon'', ''words'')], [(''Tables_in_lexicon'', ''users'')]])\<rparr>) [])
   = \<lparr>databases = [''lexicon''],
      candidates = [\<lparr>db = ''lexicon'', table = ''words'', wordCol = Some ''word'',
                     defCols = [''definition''], exCols = [], cols = [''word'', ''definition'']\<rparr>]\<rparr>"
  by code_simp

section \<open>The claims\<close>

text \<open>
  C1. A request that passes validation and obtains a connection runs the fallback phase
  (whose first statement is \<open>SHOW DATABASES\<close>, sent by nothing else in the handler) if and
  only if the candidate phase has produced no result over all candidate tables.
\<close>

theorem fallback_iff_candidate_phase_empty:
  assumes "word_param q = w" and "w \<noteq> []" and "pool_error srv = None"
  shows "(Query ShowDatabases \<in> set (trace (search_handler srv cands q))) =
           (fst (candidate_phase srv w cands ([], [GetConnection])) = [])"
proof (cases "fst (candidate_phase srv w cands ([], [GetConnection])) = []")
  case True
  obtain err results evs
    where fb: "fallback_phase srv w (candidate_phase srv w cands ([], [GetConnection]))
                 = (err, results, evs)"
    by (metis prod_cases3)
  have "Query ShowDatabases \<in> set evs"
    using fallback_phase_lists_databases
            [of srv w "candidate_phase srv w cands ([], [GetConnection])"]
    by (simp add: fb)
  then have "Query ShowDatabases \<in> set (trace (search_handler srv cands q))"
    by (cases err) (simp_all add: handler_fallback [OF assms True] fb)
  with True show ?thesis by simp
next
  case False
  obtain results evs
    where cp: "candidate_phase srv w cands ([], [GetConnection]) = (results, evs)"
    by (cases "candidate_phase srv w cands ([], [GetConnection])")
  from False cp have ne: "results \<noteq> []" by simp
  have "Query ShowDatabases \<notin> set evs"
    using candidate_phase_no_listing [of srv w cands "[]"] by (simp add: cp)
  then have "Query ShowDatabases \<notin> set (trace (search_handler srv cands q))"
    by (simp add: handler_found [OF assms cp ne])
  with False show ?thesis by simp
qed

theorem fallback_iff_candidate_phase_empty_witness:
  "word_param (Some ''Apple'') = ''Apple'' \<and> pool_error (mysql_server lexicon_dbs) = None
   \<and> fst (candidate_phase (mysql_server lexicon_dbs) ''Apple'' [] ([], [GetConnection])) = []
   \<and> Query ShowDatabases
         \<in> set (trace (search_handler (mysql_server lexicon_dbs) [] (Some ''Apple'')))
   \<and> fst (candidate_phase (mysql_server lexicon_dbs) ''Apple'' [bare_candidate]
              ([], [GetConnection])) \<noteq> []
   \<and> Query ShowDatabases
         \<notin> set (trace (search_handler (mysql_server lexicon_dbs) [bare_candidate] (Some ''Apple'')))"
proof -
  have a: "''Apple'' \<noteq> []" by simp
  have p: "pool_error (mysql_server lexicon_dbs) = None" by (simp add: mysql_server_def)
  have e: "fst (candidate_phase (mysql_server lexicon_dbs) ''Apple'' [] ([], [GetConnection])) = []"
    by simp
  have n: "fst (candidate_phase (mysql_server lexicon_dbs) ''Apple'' [bare_candidate]
                  ([], [GetConnection])) \<noteq> []"
    by code_simp
  note th = fallback_iff_candidate_phase_empty [OF word_param_Apple a p]
  from e have f1: "Query ShowDatabases
         \<in> set (trace (search_handler (mysql_server lexicon_dbs) [] (Some ''Apple'')))"
    by (simp only: th)
  from n have f2: "Query ShowDatabases
         \<notin> set (trace (search_handler (mysql_server lexicon_dbs) [bare_candidate] (Some ''Apple'')))"
    by (simp add: th)
  show ?thesis
    by (intro conjI word_param_Apple p e f1 n f2)
qed

text \<open>
  C2. Take a table that startup inspection reaches: the pool, the ping and
  \<open>SHOW DATABASES\<close> succeed, \<open>SHOW TABLES\<close> answers for every database before the
  table's own and lists the table in its own, and \<open>DESCRIBE\<close> answers for the table. The
  summary that startup leaves holds a candidate for this table if and only if its
  lower-cased columns contain a name of the word vocabulary
  word/term/lemma/headword/entry/name and a name of the definition vocabulary or of the
  example vocabulary; and such a candidate records exactly the lower-cased columns.
  Whether \<open>DESCRIBE\<close> fails for other tables does not matter.
\<close>

theorem candidate_iff_vocabulary:
  assumes "pool_error srv = None" and "ping_error srv = None"
    and "show_databases srv = Inr dbNames"
    and "filteredDbNames DB_NAME dbNames = pre @ d # post"
    and "\<forall>p\<in>set pre. \<not> isl (show_tables srv p)"
    and "show_tables srv d = Inr tables"
    and "t \<in> set (table_names d tables)"
    and "describe_table srv d t = Inr desc"
  shows "((\<exists>c\<in>set (candidates (inspectionSummary (startup srv DB_NAME))).
             db c = d \<and> table c = t)
          = (set (map toLowerCase desc)
               \<inter> {''word'', ''term'', ''lemma'', ''headword'', ''entry'', ''name''} \<noteq> {}
             \<and> (set (map toLowerCase desc) \<inter> set DEF_COLUMNS \<noteq> {}
                \<or> set (map toLowerCase desc) \<inter> set EX_COLUMNS \<noteq> {})))
         \<and> (\<forall>c\<in>set (candidates (inspectionSummary (startup srv DB_NAME))).
               db c = d \<and> table c = t \<longrightarrow> cols c = map toLowerCase desc)"
proof -
  let ?cands = "candidates (inspectionSummary (startup srv DB_NAME))"
  let ?cond = "set (map toLowerCase desc) \<inter> set WORD_COLUMNS \<noteq> {}
             \<and> (set (map toLowerCase desc) \<inter> set DEF_COLUMNS \<noteq> {}
                \<or> set (map toLowerCase desc) \<inter> set EX_COLUMNS \<noteq> {})"
  have l: "listed srv d" using assms(6) by (simp add: listed_def)
  have "takeWhile (listed srv) (pre @ d # post) = pre @ takeWhile (listed srv) (d # post)"
    using assms(5) by (intro takeWhile_append2) (simp add: listed_def)
  then have tw: "takeWhile (listed srv) (pre @ d # post) = pre @ d # takeWhile (listed srv) post"
    using l by simp
  have cl: "?cands = concat (map (db_candidates srv) (pre @ d # takeWhile (listed srv) post))"
    by (simp add: startup_closed [OF assms(1-3)] assms(4) tw)
  have from_table: "c \<in> set (table_candidates srv d t)"
    if "c \<in> set ?cands" and "db c = d" and "table c = t" for c
  proof -
    from that(1) obtain d' where "c \<in> set (db_candidates srv d')"
      by (auto simp: cl)
    from db_candidates_member [OF this] that(2,3) show ?thesis by simp
  qed
  have into: "set (table_candidates srv d t) \<subseteq> set ?cands"
    using db_candidates_holds [OF assms(6,7)] by (auto simp: cl)
  have a: "(\<exists>c\<in>set ?cands. db c = d \<and> table c = t) = ?cond"
  proof
    assume "\<exists>c\<in>set ?cands. db c = d \<and> table c = t"
    then obtain c where "c \<in> set (table_candidates srv d t)"
      using from_table by blast
    then show ?cond
      by (simp add: table_candidates_cases [OF assms(8)] split: if_splits)
  next
    assume ?cond
    then obtain c where c: "table_candidates srv d t = [c]" "db c = d" "table c = t"
      by (simp add: table_candidates_cases [OF assms(8)])
    with into have "c \<in> set ?cands" by simp
    with c show "\<exists>c\<in>set ?cands. db c = d \<and> table c = t" by blast
  qed
  have b: "\<forall>c\<in>set ?cands. db c = d \<and> table c = t \<longrightarrow> cols c = map toLowerCase desc"
  proof (intro ballI impI)
    fix c assume "c \<in> set ?cands" and "db c = d \<and> table c = t"
    then have "c \<in> set (table_candidates srv d t)" using from_table by simp
    then show "cols c = map toLowerCase desc"
      by (auto simp: table_candidates_cases [OF assms(8)] split: if_splits)
  qed
  from a b show ?thesis by (simp only: word_vocabulary)
qed

theorem candidate_iff_vocabulary_witness:
  "describe_table flaky_server ''lexicon'' ''legacy_view'' = Inl ''View references invalid table''
   \<and> describe_table flaky_server ''lexicon'' ''words'' = Inr [''word'', ''definition'']
   \<and> (\<exists>c\<in>set (candidates (inspectionSummary (startup flaky_server []))).
         db c = ''lexicon'' \<and> table c = ''words'')
   \<and> describe_table flaky_server ''lexicon'' ''users'' = Inr [''id'', ''email'']
   \<and> \<not> (\<exists>c\<in>set (candidates (inspectionSummary (startup flaky_server []))).
         db c = ''lexicon'' \<and> table c = ''users'')"
proof -
  have pre: "\<forall>p\<in>set []. \<not> isl (show_tables flaky_server p)" by simp
  have words: "''words'' \<in> set ([] @ ''legacy_view'' # [''words'', ''users''])"
    and users: "''users'' \<in> set ([] @ ''legacy_view'' # [''words'', ''users''])"
    by simp_all
  note th = candidate_iff_vocabulary [OF flaky_facts(1,2,3,4) pre flaky_facts(5)]
  have f1: "\<exists>c\<in>set (candidates (inspectionSummary (startup flaky_server []))).
         db c = ''lexicon'' \<and> table c = ''words''"
    using th [OF words [folded flaky_facts(6)] flaky_facts(9), THEN conjunct1] flaky_vocabulary(1)
    by (rule iffD2)
  have f2: "\<not> (\<exists>c\<in>set (candidates (inspectionSummary (startup flaky_server []))).
         db c = ''lexicon'' \<and> table c = ''users'')"
  proof
    assume "\<exists>c\<in>set (candidates (inspectionSummary (startup flaky_server []))).
         db c = ''lexicon'' \<and> table c = ''users''"
    with th [OF users [folded flaky_facts(6)] flaky_facts(10), THEN conjunct1]
    have "set (map toLowerCase [''id'', ''email''])
        \<inter> {''word'', ''term'', ''lemma'', ''headword'', ''entry'', ''name''} \<noteq> {}
      \<and> (set (map toLowerCase [''id'', ''email'']) \<inter> set DEF_COLUMNS \<noteq> {}
         \<or> set (map toLowerCase [''id'', ''email'']) \<inter> set EX_COLUMNS \<noteq> {})"
      by (rule iffD1)
    with flaky_vocabulary(2) show False by (rule notE)
  qed
  show ?thesis
    by (intro conjI flaky_facts(8,9,10) f1 f2)
qed

text \<open>
  C3. Every candidate that startup inspection leaves in the summary has a word column,
  which is one of its recorded columns, and its definition columns and example columns
  are among its recorded columns.
\<close>

theorem candidate_columns_are_recorded:
  "\<forall>c \<in> set (candidates (inspectionSummary (startup srv DB_NAME))).
     (\<exists>wc. wordCol c = Some wc \<and> wc \<in> set (cols c))
     \<and> set (defCols c) \<subseteq> set (cols c) \<and> set (exCols c) \<subseteq> set (cols c)"
  using startup_ok [of srv DB_NAME] by (simp add: list_all_iff cand_ok_def)

theorem candidate_columns_are_recorded_witness:
  "candidates (inspectionSummary (startup (mysql_server lexicon_dbs) [])) =
     [\<lparr>db = ''lexicon'', table = ''words'', wordCol = Some ''word'',
       defCols = [''definition''], exCols = [], cols = [''word'', ''definition'']\<rparr>]
   \<and> ''word'' \<in> set [''word'', ''definition'']
   \<and> set [''definition''] \<subseteq> set [''word'', ''definition'']"
  using candidate_columns_are_recorded [of "mysql_server lexicon_dbs" "[]"]
  by (simp add: lexicon_inspected)

text \<open>
  C4, as stated: on the server that refuses \<open>SHOW TABLES\<close> for its second database,
  inspection ends with that error and the summary still holds the candidate recorded from
  the first database.
\<close>

theorem partial_inspection_counterexample:
  "fst (inspectSchema denied_server []
          (emit Release (emit Ping (emit GetConnection initial_world))))
     = Some ''SHOW command denied''
   \<and> candidates (inspectionSummary (startup denied_server [])) =
     [\<lparr>db = ''lexicon'', table = ''words'', wordCol = Some ''word'',
       defCols = [''definition''], exCols = [], cols = [''word'', ''definition'']\<rparr>]"
  by code_simp

text \<open>
  C4, amended. Startup catches whatever inspection throws and goes on with what the
  summary holds at that moment: no candidate when the pool, the ping or \<open>SHOW DATABASES\<close>
  fails; when \<open>SHOW TABLES\<close> fails for a database, the candidates recorded from the
  databases before it (and an empty database list). A failing \<open>DESCRIBE\<close> skips its table
  only: startup leaves the summary that it leaves when the database does not list that
  table at all.
\<close>

theorem inspection_failure_keeps_recorded:
  "(pool_error srv \<noteq> None \<or> ping_error srv \<noteq> None \<or> isl (show_databases srv)
      \<longrightarrow> inspectionSummary (startup srv DB_NAME) = \<lparr>databases = [], candidates = []\<rparr>)
   \<and> (pool_error srv = None \<and> ping_error srv = None \<and> show_databases srv = Inr dbNames
        \<and> filteredDbNames DB_NAME dbNames = pre @ d # post \<and> isl (show_tables srv d)
      \<longrightarrow> (\<exists>e. fst (inspectSchema srv DB_NAME
                       (emit Release (emit Ping (emit GetConnection initial_world)))) = Some e)
          \<and> databases (inspectionSummary (startup srv DB_NAME)) = []
          \<and> candidates (inspectionSummary (startup srv DB_NAME))
              = candidates (inspectionSummary (snd (inspect_dbs srv pre initial_world))))
   \<and> (show_tables srv d' = Inr tables \<and> table_names d' tables = ts1 @ t # ts2
        \<and> isl (describe_table srv d' t) \<and> table_names d' tables' = ts1 @ ts2
      \<longrightarrow> inspectionSummary (startup srv DB_NAME)
            = inspectionSummary
                (startup (srv\<lparr>show_tables := (show_tables srv)(d' := Inr tables')\<rparr>) DB_NAME))"
proof (intro conjI impI)
  assume "pool_error srv \<noteq> None \<or> ping_error srv \<noteq> None \<or> isl (show_databases srv)"
  then show "inspectionSummary (startup srv DB_NAME) = \<lparr>databases = [], candidates = []\<rparr>"
    by (rule startup_unreachable)
next
  assume a: "pool_error srv = None \<and> ping_error srv = None \<and> show_databases srv = Inr dbNames
        \<and> filteredDbNames DB_NAME dbNames = pre @ d # post \<and> isl (show_tables srv d)"
  then have "(\<exists>e. fst (inspectSchema srv DB_NAME
                       (emit Release (emit Ping (emit GetConnection initial_world)))) = Some e)
          \<and> databases (inspectionSummary (startup srv DB_NAME)) = []
          \<and> candidates (inspectionSummary (startup srv DB_NAME))
              = candidates (inspectionSummary (snd (inspect_dbs srv pre initial_world)))"
    by (intro startup_listing_fails [of srv dbNames DB_NAME pre d post]) simp_all
  then show "\<exists>e. fst (inspectSchema srv DB_NAME
                       (emit Release (emit Ping (emit GetConnection initial_world)))) = Some e"
    and "databases (inspectionSummary (startup srv DB_NAME)) = []"
    and "candidates (inspectionSummary (startup srv DB_NAME))
              = candidates (inspectionSummary (snd (inspect_dbs srv pre initial_world)))"
    by simp_all
next
  assume "show_tables srv d' = Inr tables \<and> table_names d' tables = ts1 @ t # ts2
        \<and> isl (describe_table srv d' t) \<and> table_names d' tables' = ts1 @ ts2"
  then show "inspectionSummary (startup srv DB_NAME)
            = inspectionSummary
                (startup (srv\<lparr>show_tables := (show_tables srv)(d' := Inr tables')\<rparr>) DB_NAME)"
    by (intro startup_skips_failed_describe [of srv d' tables ts1 t ts2 tables']) simp_all
qed

theorem inspection_failure_keeps_recorded_witness:
  "isl (show_databases ((mysql_server lexicon_dbs)\<lparr>show_databases := Inl ''Connection lost''\<rparr>))
   \<and> inspectionSummary
        (startup ((mysql_server lexicon_dbs)\<lparr>show_databases := Inl ''Connection lost''\<rparr>) [])
       = \<lparr>databases = [], candidates = []\<rparr>
   \<and> show_tables denied_server ''restricted'' = Inl ''SHOW command denied''
   \<and> databases (inspectionSummary (startup denied_server [])) = []
   \<and> candidates (inspectionSummary (startup denied_server [])) =
       [\<lparr>db = ''lexicon'', table = ''words'', wordCol = Some ''word'',
         defCols = [''definition''], exCols = [], cols = [''word'', ''definition'']\<rparr>]
   \<and> describe_table flaky_server ''lexicon'' ''legacy_view'' = Inl ''View references invalid table''
   \<and> inspectionSummary (startup flaky_server []) =
       \<lparr>databases = [''lexicon''],
        candidates = [\<lparr>db = ''lexicon'', table = ''words'', wordCol = Some ''word'',
                       defCols = [''definition''], exCols = [], cols = [''word'', ''definition'']\<rparr>]\<rparr>"
proof -
  let ?lost = "(mysql_server lexicon_dbs)\<lparr>show_databases := Inl ''Connection lost''\<rparr>"
  have f1: "isl (show_databases ?lost)" by simp
  then have h1: "pool_error ?lost \<noteq> None \<or> ping_error ?lost \<noteq> None \<or> isl (show_databases ?lost)"
    by (intro disjI2)
  have f2: "inspectionSummary (startup ?lost []) = \<lparr>databases = [], candidates = []\<rparr>"
    by (rule inspection_failure_keeps_recorded [THEN conjunct1, THEN mp, OF h1])
  have f3: "show_tables denied_server ''restricted'' = Inl ''SHOW command denied''"
    by (rule denied_facts)
  then have i3: "isl (show_tables denied_server ''restricted'')" by simp
  have h2: "pool_error denied_server = None \<and> ping_error denied_server = None
        \<and> show_databases denied_server = Inr [''lexicon'', ''restricted'']
        \<and> filteredDbNames [] [''lexicon'', ''restricted''] = [''lexicon''] @ ''restricted'' # []
        \<and> isl (show_tables denied_server ''restricted'')"
    by (intro conjI denied_facts i3)
  note c2 = inspection_failure_keeps_recorded [THEN conjunct2, THEN conjunct1, THEN mp, OF h2]
  from c2 have f4: "databases (inspectionSummary (startup denied_server [])) = []"
    by (rule conjunct2 [THEN conjunct1])
  from c2 have "candidates (inspectionSummary (startup denied_server [])) =
      candidates (inspectionSummary (snd (inspect_dbs denied_server [''lexicon''] initial_world)))"
    by (rule conjunct2 [THEN conjunct2])
  then have f5: "candidates (inspectionSummary (startup denied_server [])) =
       [\<lparr>db = ''lexicon'', table = ''words'', wordCol = Some ''word'',
         defCols = [''definition''], exCols = [], cols = [''word'', ''definition'']\<rparr>]"
    by (simp only: denied_prefix_inspected)
  have f6: "describe_table flaky_server ''lexicon'' ''legacy_view'' = Inl ''View references invalid table''"
    by (rule flaky_facts)
  then have i6: "isl (describe_table flaky_server ''lexicon'' ''legacy_view'')" by simp
  have h3: "show_tables flaky_server ''lexicon'' =
          Inr [[(''Tables_in_lexicon'', ''legacy_view'')], [(''Tables_in_lexicon'', ''words'')],
               [(''Tables_in_lexicon'', ''users'')]]
      \<and> table_names ''lexicon''
          [[(''Tables_in_lexicon'', ''legacy_view'')], [(''Tables_in_lexicon'', ''words'')],
           [(''Tables_in_lexicon'', ''users'')]] = [] @ ''legacy_view'' # [''words'', ''users'']
      \<and> isl (describe_table flaky_server ''lexicon'' ''legacy_view'')
      \<and> table_names ''lexicon''
          [[(''Tables_in_lexicon'', ''words'')], [(''Tables_in_lexicon'', ''users'')]]
          = [] @ [''words'', ''users'']"
    by (intro conjI flaky_facts i6)
  have "inspectionSummary (startup flaky_server []) =
      inspectionSummary
        (startup (flaky_server\<lparr>show_tables := (show_tables flaky_server)(''lexicon'' :=
           Inr [[(''Tables_in_lexicon'', ''words'')], [(''Tables_in_lexicon'', ''users'')]])\<rparr>) [])"
    by (rule inspection_failure_keeps_recorded [THEN conjunct2, THEN conjunct2, THEN mp, OF h3])
  then have f7: "inspectionSummary (startup flaky_server []) =
       \<lparr>databases = [''lexicon''],
        candidates = [\<lparr>db = ''lexicon'', table = ''words'', wordCol = Some ''word'',
                       defCols = [''definition''], exCols = [], cols = [''word'', ''definition'']\<rparr>]\<rparr>"
    by (simp only: flaky_unlisted_inspected)
  show ?thesis
    by (intro conjI f1 f2 f3 f4 f5 f6 f7)
qed

text \<open>
  C5, as stated: with one database whose tables cannot be listed, a search that reaches
  the fallback phase is answered 500.
\<close>

theorem listing_error_is_500_counterexample:
  "show_tables denied_server ''restricted'' = Inl ''SHOW command denied''
   \<and> response (search_handler denied_server
         (candidates (inspectionSummary (startup denied_server []))) (Some ''pear''))
       = Some \<lparr>status = 500, body = ErrorBody ''Internal server error''\<rparr>"
  by code_simp

text \<open>
  C5, amended. For a request that gets its connection, the handler answers 500 exactly
  when the word passes validation, the candidate phase ends without a result (no row
  matched, or the candidates' queries failed), and in the fallback phase
  \<open>SHOW DATABASES\<close> fails or \<open>SHOW TABLES\<close> fails for one of the non-system databases. An
  error of a \<open>DESCRIBE\<close> or of a \<open>SELECT\<close> on a single table is caught where it occurs:
  when the listings succeed the answer is not 500, whatever these statements do.
\<close>

theorem server_error_iff_listing_fails:
  assumes "pool_error srv = None"
  shows "((\<exists>r. response (search_handler srv cands q) = Some r \<and> status r = 500) =
           (word_param q \<noteq> []
            \<and> fst (candidate_phase srv (word_param q) cands ([], [GetConnection])) = []
            \<and> (case show_databases srv of
                  Inl e \<Rightarrow> True
                | Inr dbs \<Rightarrow>
                    list_ex (\<lambda>d. isl (show_tables srv d))
                      (filter (\<lambda>d. d \<notin> set SYSTEM_SCHEMAS) dbs))))
         \<and> (show_databases srv = Inr dbNames
              \<and> (\<forall>d\<in>set (filter (\<lambda>d. d \<notin> set SYSTEM_SCHEMAS) dbNames).
                    \<not> isl (show_tables srv d))
            \<longrightarrow> \<not> (\<exists>r. response (search_handler srv cands q) = Some r \<and> status r = 500))"
proof -
  note p = assms
  have main: "(\<exists>r. response (search_handler srv cands q) = Some r \<and> status r = 500) =
           (word_param q \<noteq> []
            \<and> fst (candidate_phase srv (word_param q) cands ([], [GetConnection])) = []
            \<and> (case show_databases srv of
                  Inl e \<Rightarrow> True
                | Inr dbs \<Rightarrow>
                    list_ex (\<lambda>d. isl (show_tables srv d))
                      (filter (\<lambda>d. d \<notin> set SYSTEM_SCHEMAS) dbs)))"
  proof (cases "word_param q = []")
    case True
    then show ?thesis by (simp add: handler_blank)
  next
    case False
    note w = this
    obtain results evs
      where cp: "candidate_phase srv (word_param q) cands ([], [GetConnection]) = (results, evs)"
      by (cases "candidate_phase srv (word_param q) cands ([], [GetConnection])")
    show ?thesis
    proof (cases "results = []")
      case False
      then show ?thesis
        using w by (simp add: handler_found [OF refl w p cp False] cp)
    next
      case True
      with cp have e: "fst (candidate_phase srv (word_param q) cands ([], [GetConnection])) = []"
        by simp
      show ?thesis
      proof (cases "show_databases srv")
        case (Inl err)
        then show ?thesis
          using w e by (simp add: handler_fallback [OF refl w p e] cp True fallback_phase_def)
      next
        case (Inr dbs)
        let ?ds = "filter (\<lambda>d. d \<notin> set SYSTEM_SCHEMAS) dbs"
        let ?st = "([], evs @ [Query ShowDatabases])"
        obtain err rs es where fb: "fallback_dbs srv (word_param q) ?ds ?st = (err, rs, es)"
          by (metis prod_cases3)
        have "(\<exists>x. err = Some x) = list_ex (\<lambda>d. isl (show_tables srv d)) ?ds"
          using fallback_dbs_error [of srv "word_param q" ?ds ?st] by (simp add: fb)
        then show ?thesis
          using w e
          by (cases err)
             (simp_all add: handler_fallback [OF refl w p e] cp True fallback_phase_def Inr fb)
      qed
    qed
  qed
  have quiet: "\<not> (\<exists>r. response (search_handler srv cands q) = Some r \<and> status r = 500)"
    if "show_databases srv = Inr dbNames"
      and "\<forall>d\<in>set (filter (\<lambda>d. d \<notin> set SYSTEM_SCHEMAS) dbNames). \<not> isl (show_tables srv d)"
  proof -
    from that(2)
    have "\<not> list_ex (\<lambda>d. isl (show_tables srv d)) (filter (\<lambda>d. d \<notin> set SYSTEM_SCHEMAS) dbNames)"
      by (simp add: list_ex_iff)
    with that(1) show ?thesis by (simp add: main)
  qed
  from main quiet show ?thesis by blast
qed

theorem server_error_iff_listing_fails_witness:
  "pool_error denied_server = None
   \<and> show_tables denied_server ''restricted'' = Inl ''SHOW command denied''
   \<and> (\<exists>r. response (search_handler denied_server [] (Some ''apple'')) = Some r \<and> status r = 500)
   \<and> pool_error flaky_server = None
   \<and> describe_table flaky_server ''lexicon'' ''legacy_view'' = Inl ''View references invalid table''
   \<and> (\<nexists>r. response (search_handler flaky_server [] (Some ''apple'')) = Some r \<and> status r = 500)"
proof -
  have r1: "word_param (Some ''apple'') \<noteq> []
      \<and> fst (candidate_phase denied_server (word_param (Some ''apple'')) [] ([], [GetConnection])) = []
      \<and> (case show_databases denied_server of
            Inl e \<Rightarrow> True
          | Inr dbs \<Rightarrow>
              list_ex (\<lambda>d. isl (show_tables denied_server d))
                (filter (\<lambda>d. d \<notin> set SYSTEM_SCHEMAS) dbs))"
    by code_simp
  have f1: "\<exists>r. response (search_handler denied_server [] (Some ''apple'')) = Some r \<and> status r = 500"
    by (rule server_error_iff_listing_fails
               [OF denied_facts(1), THEN conjunct1, THEN iffD2, OF r1])
  have r2: "show_databases flaky_server = Inr [''lexicon'']
      \<and> (\<forall>d\<in>set (filter (\<lambda>d. d \<notin> set SYSTEM_SCHEMAS) [''lexicon'']).
            \<not> isl (show_tables flaky_server d))"
    by (simp add: flaky_facts SYSTEM_SCHEMAS_def)
  have f2: "\<nexists>r. response (search_handler flaky_server [] (Some ''apple'')) = Some r \<and> status r = 500"
    by (rule server_error_iff_listing_fails
               [OF flaky_facts(1), THEN conjunct2, THEN mp, OF r2])
  show ?thesis
    by (intro conjI f1 f2 denied_facts(1,4) flaky_facts(1,8))
qed

text \<open>
  C6. On a server whose only user table is \<open>words(word, definition)\<close> with the one row
  \<open>("apple", "a fruit")\<close>, inspected at startup under any configured \<open>DB_NAME\<close>, the
  search for \<open>Apple\<close> answers 200 with exactly one result, whose word is \<open>apple\<close>, as
  stored, and whose definitions are \<open>["a fruit"]\<close>.
\<close>

theorem search_Apple_finds_apple:
  "response (search_handler (mysql_server lexicon_dbs)
     (candidates (inspectionSummary (startup (mysql_server lexicon_dbs) DB_NAME)))
     (Some ''Apple'')) =
   Some \<lparr>status = 200,
     body = FoundBody ''Apple'' 1
       [\<lparr>source = ''lexicon.words'', word = JStr ''apple'', definitions = [JStr ''a fruit''],
         examples = [], row = [(''word'', JStr ''apple''), (''definition'', JStr ''a fruit'')]\<rparr>]\<rparr>"
proof -
  consider "DB_NAME = []" | "DB_NAME = ''lexicon''" | "DB_NAME \<noteq> []" "DB_NAME \<noteq> ''lexicon''"
    by blast
  then show ?thesis
  proof cases
    case 1
    then show ?thesis by (simp only: lexicon_inspected lexicon_search_by_candidate)
  next
    case 2
    then show ?thesis by (simp only: lexicon_named_inspected lexicon_search_by_candidate)
  next
    case 3
    show ?thesis by (simp only: lexicon_other_inspected [OF 3] lexicon_search_by_fallback)
  qed
qed

theorem search_Apple_finds_apple_witness:
  "response (search_handler (mysql_server lexicon_dbs)
     (candidates (inspectionSummary (startup (mysql_server lexicon_dbs) [])))
     (Some ''Apple'')) =
   Some \<lparr>status = 200,
     body = FoundBody ''Apple'' 1
       [\<lparr>source = ''lexicon.words'', word = JStr ''apple'', definitions = [JStr ''a fruit''],
         examples = [], row = [(''word'', JStr ''apple''), (''definition'', JStr ''a fruit'')]\<rparr>]\<rparr>"
  by (rule search_Apple_finds_apple)

text \<open>
  C7, as stated: a numeric zero in an example column is neither empty nor null, and the
  code drops it.
\<close>

theorem zero_is_dropped_counterexample:
  "candidates (inspectionSummary (startup (mysql_server usage_dbs) [])) = [usage_candidate]
   \<and> select_rows (mysql_server usage_dbs) ''lexicon'' ''entries'' ''word'' ''apple'' 50
       = Inr [usage_row]
   \<and> examples (candidate_result usage_candidate usage_row) = []
   \<and> spec_drop_empty_null (map (row_get usage_row) (exCols usage_candidate)) = [JNum 0]"
  by code_simp

text \<open>
  C7, amended. The candidate phase maps every row that a candidate's query returns, in
  order, to a result whose definitions and examples are the values of the candidate's
  recorded definition and example columns in the recorded order, with exactly the falsy
  values removed: a missing value, \<open>null\<close>, the empty string and the number zero.
\<close>

theorem candidate_rows_drop_falsy:
  "fst (candidate_phase srv w cands ([], evs)) =
     concat (map (\<lambda>c.
       case select_rows srv (db c) (table c) (js_str (wordCol c)) w 50 of
         Inl e \<Rightarrow> []
       | Inr rows \<Rightarrow>
           map (\<lambda>r.
             \<lparr>source = db c @ ''.'' @ table c,
              word = row_get r (js_str (wordCol c)),
              definitions = filter (\<lambda>v. v \<notin> {JUndefined, JNull, JStr [], JNum 0})
                              (map (row_get r) (defCols c)),
              examples = filter (\<lambda>v. v \<notin> {JUndefined, JNull, JStr [], JNum 0})
                           (map (row_get r) (exCols c)),
              row = r\<rparr>) rows) cands)"
proof -
  have "candidate_result c = (\<lambda>r.
             \<lparr>source = db c @ ''.'' @ table c,
              word = row_get r (js_str (wordCol c)),
              definitions = filter (\<lambda>v. v \<notin> {JUndefined, JNull, JStr [], JNum 0})
                              (map (row_get r) (defCols c)),
              examples = filter (\<lambda>v. v \<notin> {JUndefined, JNull, JStr [], JNum 0})
                           (map (row_get r) (exCols c)),
              row = r\<rparr>)" for c
    by (rule ext) (simp only: candidate_result_def truthy_iff [abs_def])
  then show ?thesis
    by (simp only: candidate_phase_results append_Nil)
qed

theorem candidate_rows_drop_falsy_witness:
  "fst (candidate_phase (mysql_server usage_dbs) ''apple'' [usage_candidate] ([], [])) =
     [\<lparr>source = ''lexicon.entries'', word = JStr ''apple'', definitions = [], examples = [],
       row = usage_row\<rparr>]"
  using candidate_rows_drop_falsy [of "mysql_server usage_dbs" "''apple''" "[usage_candidate]" "[]"]
  by (simp add: usage_select usage_candidate_def usage_row_def row_get_def)

text \<open>
  C8. A request whose \<open>word\<close> parameter is absent, empty or made of white space only
  (of what \<open>trim\<close> strips, the no-break space included) is answered with status 400 and
  the error body "Missing required query parameter: word"; the handler asks the pool for
  no connection and sends no statement.
\<close>

theorem blank_word_is_rejected:
  assumes "q = None \<or> (\<exists>s. q = Some s \<and> (\<forall>c\<in>set s. is_space c))"
  shows "search_handler srv cands q =
     \<lparr>response = Some \<lparr>status = 400, body = ErrorBody ''Missing required query parameter: word''\<rparr>,
      trace = []\<rparr>"
proof -
  have "word_param q = []"
    using assms by (auto simp: word_param_def trim_all_space)
  then show ?thesis by (rule handler_blank)
qed

theorem blank_word_is_rejected_witness:
  "search_handler (mysql_server lexicon_dbs) [] (Some ''   '') =
     \<lparr>response = Some \<lparr>status = 400, body = ErrorBody ''Missing required query parameter: word''\<rparr>,
      trace = []\<rparr>
   \<and> search_handler (mysql_server lexicon_dbs) [] (Some [CHR 0xA0, CHR 0x09]) =
     \<lparr>response = Some \<lparr>status = 400, body = ErrorBody ''Missing required query parameter: word''\<rparr>,
      trace = []\<rparr>
   \<and> search_handler (mysql_server lexicon_dbs) [] None =
     \<lparr>response = Some \<lparr>status = 400, body = ErrorBody ''Missing required query parameter: word''\<rparr>,
      trace = []\<rparr>"
  using blank_word_is_rejected [of "Some ''   ''" "mysql_server lexicon_dbs" "[]"]
    blank_word_is_rejected [of "Some [CHR 0xA0, CHR 0x09]" "mysql_server lexicon_dbs" "[]"]
    blank_word_is_rejected [of None "mysql_server lexicon_dbs" "[]"]
  by (simp add: is_space_def)

text \<open>
  C9. When the configured \<open>DB_NAME\<close> is one of the system schema names, the list of
  databases to inspect is empty whatever the server lists, startup leaves a summary with
  no database and no candidate, and no \<open>SHOW TABLES\<close> or \<open>DESCRIBE\<close> is sent.
\<close>

theorem system_db_name_inspects_nothing:
  assumes "DB_NAME \<in> set SYSTEM_SCHEMAS"
  shows "filteredDbNames DB_NAME dbNames = []
         \<and> inspectionSummary (startup srv DB_NAME) = \<lparr>databases = [], candidates = []\<rparr>
         \<and> set (events (startup srv DB_NAME))
             \<subseteq> {GetConnection, Ping, Release, Query ShowDatabases}"
  using filtered_system [OF assms]
  by (auto simp: startup_def inspectSchema_def emit_def initial_world_def
           split: option.splits sum.splits)

theorem system_db_name_inspects_nothing_witness:
  "''mysql'' \<in> set SYSTEM_SCHEMAS
   \<and> inspectionSummary (startup (mysql_server lexicon_dbs) ''mysql'')
       = \<lparr>databases = [], candidates = []\<rparr>
   \<and> events (startup (mysql_server lexicon_dbs) ''mysql'')
       = [GetConnection, Ping, Release, GetConnection, Query ShowDatabases, Release]"
proof -
  have m: "''mysql'' \<in> set SYSTEM_SCHEMAS" by (simp add: SYSTEM_SCHEMAS_def)
  have e: "events (startup (mysql_server lexicon_dbs) ''mysql'')
       = [GetConnection, Ping, Release, GetConnection, Query ShowDatabases, Release]"
    by code_simp
  show ?thesis
    using system_db_name_inspects_nothing [OF m, of "[]" "mysql_server lexicon_dbs"] m e
    by simp
qed

text \<open>
  C10. When a candidate's query returns rows, each of them is a result of the candidate
  phase whatever its definitions and examples are, the fallback phase does not run, and
  the response is 200 with the candidate phase's results.
\<close>

theorem candidate_rows_suppress_fallback:
  assumes "word_param q = w" and "w \<noteq> []" and "pool_error srv = None"
    and "cand \<in> set cands"
    and "select_rows srv (db cand) (table cand) (js_str (wordCol cand)) w 50 = Inr rows"
    and "rows \<noteq> []"
  shows "set (map (candidate_result cand) rows)
           \<subseteq> set (fst (candidate_phase srv w cands ([], [GetConnection])))
         \<and> Query ShowDatabases \<notin> set (trace (search_handler srv cands q))
         \<and> response (search_handler srv cands q) =
             Some \<lparr>status = 200,
                   body = FoundBody w
                     (length (fst (candidate_phase srv w cands ([], [GetConnection]))))
                     (fst (candidate_phase srv w cands ([], [GetConnection])))\<rparr>"
proof -
  obtain results evs
    where cp: "candidate_phase srv w cands ([], [GetConnection]) = (results, evs)"
    by (cases "candidate_phase srv w cands ([], [GetConnection])")
  have sub: "set (map (candidate_result cand) rows) \<subseteq> set results"
    using candidate_rows_in_results [OF assms(4,5), of "[]" "[GetConnection]"] by (simp add: cp)
  with assms(6) have ne: "results \<noteq> []" by (cases rows) auto
  have "Query ShowDatabases \<notin> set evs"
    using candidate_phase_no_listing [of srv w cands "[]"] by (simp add: cp)
  then show ?thesis
    using sub by (simp add: handler_found [OF assms(1-3) cp ne] cp)
qed

theorem candidate_rows_suppress_fallback_witness:
  "search_handler (mysql_server bare_dbs)
     (candidates (inspectionSummary (startup (mysql_server bare_dbs) []))) (Some ''apple'') =
   \<lparr>response = Some \<lparr>status = 200,
       body = FoundBody ''apple'' 1
                [\<lparr>source = ''lexicon.words'', word = JStr ''apple'', definitions = [],
                  examples = [], row = bare_row\<rparr>]\<rparr>,
    trace = [GetConnection, Query (Select ''lexicon'' ''words'' ''word'' ''apple'' 50), Release]\<rparr>
   \<and> Query ShowDatabases \<notin> set (trace (search_handler (mysql_server bare_dbs)
         (candidates (inspectionSummary (startup (mysql_server bare_dbs) []))) (Some ''apple'')))"
proof -
  have p: "pool_error (mysql_server bare_dbs) = None" by (simp add: mysql_server_def)
  have m: "bare_candidate \<in> set [bare_candidate]" by simp
  have s: "select_rows (mysql_server bare_dbs) (db bare_candidate) (table bare_candidate)
             (js_str (wordCol bare_candidate)) ''apple'' 50 = Inr [bare_row]"
    by (simp add: bare_candidate_def bare_select)
  have n: "[bare_row] \<noteq> []" and a: "''apple'' \<noteq> []" by simp_all
  note th = candidate_rows_suppress_fallback [OF word_param_apple a p m s n]
  have full: "search_handler (mysql_server bare_dbs) [bare_candidate] (Some ''apple'') =
   \<lparr>response = Some \<lparr>status = 200,
       body = FoundBody ''apple'' 1
                [\<lparr>source = ''lexicon.words'', word = JStr ''apple'', definitions = [],
                  examples = [], row = bare_row\<rparr>]\<rparr>,
    trace = [GetConnection, Query (Select ''lexicon'' ''words'' ''word'' ''apple'' 50), Release]\<rparr>"
    by code_simp
  show ?thesis
    using th by (simp add: bare_inspected full)
qed

end
